theory Spec2Isabelle
  imports Main "HOL-Library.Product_Lexorder" "HOL-Library.Sublist"
begin

section \<open>Python values\<close>

text \<open>
  The feed delivers JSON, which \<^verbatim>\<open>response.json()\<close> turns into Python values; the
  code reads them with \<^verbatim>\<open>dict.get\<close> and never checks a type. A JSON object is an
  association list read with \<open>map_of\<close> (a Python dict holds each key once). JSON
  numbers are integers here; floats are outside the model.
\<close>

datatype json =
    JNull
  | JBool bool
  | JNum int
  | JStr string
  | JArr "json list"
  | JObj "(string \<times> json) list"

datatype pyerror = AttributeError | TypeError | KeyError | ValueError | RequestException

text \<open>A naive datetime compares by its fields (year, month, day, hour, minute, second,
  microsecond); \<open>tzinfo\<close> is the UTC offset in minutes when the value is aware.\<close>

type_synonym wallclock = "nat \<times> nat \<times> nat \<times> nat \<times> nat \<times> nat \<times> nat"

datatype datetime = DateTime (wall: wallclock) (tzinfo: "int option")

text \<open>\<^verbatim>\<open>dt.replace(tzinfo=None)\<close>\<close>

definition replace_tzinfo_None :: "datetime \<Rightarrow> datetime" where
  "replace_tzinfo_None d = DateTime (wall d) None"

text \<open>
  What the code takes from outside the repository: the HTTP endpoint behind
  \<^verbatim>\<open>NavClient._make_request\<close> (endpoint, whether the parameter \<^verbatim>\<open>last=true\<close> is sent; the
  result after the retries), \<^verbatim>\<open>datetime.fromisoformat\<close> on a string (\<open>None\<close> is its
  ValueError), \<^verbatim>\<open>repr\<close> of a string, the clock behind \<^verbatim>\<open>datetime.now()\<close> (the time
  at the n-th call of \<^verbatim>\<open>save_job\<close> or \<^verbatim>\<open>update_feed_state\<close> of a run) and the order in
  which \<^verbatim>\<open>as_completed\<close> hands the futures of a page back.
\<close>

record world =
  http :: "string \<Rightarrow> bool \<Rightarrow> pyerror + json"
  fromisoformat :: "string \<Rightarrow> datetime option"
  repr_str :: "string \<Rightarrow> string"
  clock :: "nat \<Rightarrow> datetime"
  as_completed :: "json list \<Rightarrow> json list"

text \<open>Truth value of a Python value in \<^verbatim>\<open>if x\<close>, \<^verbatim>\<open>not x\<close>, \<^verbatim>\<open>x or y\<close>.\<close>

fun truthy :: "json \<Rightarrow> bool" where
  "truthy JNull = False"
| "truthy (JBool b) = b"
| "truthy (JNum n) = (n \<noteq> 0)"
| "truthy (JStr s) = (s \<noteq> [])"
| "truthy (JArr xs) = (xs \<noteq> [])"
| "truthy (JObj kvs) = (kvs \<noteq> [])"

text \<open>\<^verbatim>\<open>d.get(k, default)\<close>: only a dict has \<^verbatim>\<open>get\<close>.\<close>

fun get_default :: "json \<Rightarrow> string \<Rightarrow> json \<Rightarrow> pyerror + json" where
  "get_default (JObj kvs) k d = Inr (case map_of kvs k of None \<Rightarrow> d | Some v \<Rightarrow> v)"
| "get_default _ k d = Inl AttributeError"

text \<open>\<^verbatim>\<open>d.get(k)\<close>\<close>

definition get :: "json \<Rightarrow> string \<Rightarrow> pyerror + json" where
  "get j k = get_default j k JNull"

text \<open>\<^verbatim>\<open>k in d\<close> on a dict: whether \<^verbatim>\<open>d[k]\<close> returns.\<close>

fun has_key :: "json \<Rightarrow> string \<Rightarrow> bool" where
  "has_key (JObj kvs) k = (map_of kvs k \<noteq> None)"
| "has_key _ k = False"

text \<open>\<^verbatim>\<open>for x in v\<close>: a list gives its elements, a string its characters, a dict its
  keys; nothing else is iterable.\<close>

fun py_iter :: "json \<Rightarrow> pyerror + json list" where
  "py_iter (JArr xs) = Inr xs"
| "py_iter (JStr s) = Inr (map (\<lambda>c. JStr [c]) s)"
| "py_iter (JObj kvs) = Inr (map (\<lambda>kv. JStr (fst kv)) kvs)"
| "py_iter _ = Inl TypeError"

text \<open>\<^verbatim>\<open>len(v)\<close>\<close>

fun py_len :: "json \<Rightarrow> pyerror + nat" where
  "py_len (JArr xs) = Inr (length xs)"
| "py_len (JStr s) = Inr (length s)"
| "py_len (JObj kvs) = Inr (length kvs)"
| "py_len _ = Inl TypeError"

text \<open>\<^verbatim>\<open>v[0]\<close> of a truthy value: the keys of a JSON object are strings, so 0 is not one.\<close>

fun first_item :: "json \<Rightarrow> pyerror + json" where
  "first_item (JArr (x # xs)) = Inr x"
| "first_item (JStr (c # cs)) = Inr (JStr [c])"
| "first_item (JObj kvs) = Inl KeyError"
| "first_item _ = Inl TypeError"

text \<open>
  Members of a Python set or of a tuple in a set must be hashable (lists and dicts are
  not), and are compared with \<^verbatim>\<open>==\<close>, under which \<^verbatim>\<open>True == 1\<close> and \<^verbatim>\<open>False == 0\<close>.
  \<open>hkey\<close> maps a value to the representative of its class.
\<close>

fun hashable :: "json \<Rightarrow> bool" where
  "hashable (JArr xs) = False"
| "hashable (JObj kvs) = False"
| "hashable _ = True"

fun hkey :: "json \<Rightarrow> json" where
  "hkey (JBool b) = JNum (if b then 1 else 0)"
| "hkey v = v"

text \<open>\<^verbatim>\<open>str(n)\<close> of an integer.\<close>

fun show_nat :: "nat \<Rightarrow> string" where
  "show_nat n =
     (if n < 10 then [char_of (48 + n)]
      else show_nat (n div 10) @ [char_of (48 + n mod 10)])"

declare show_nat.simps [simp del]

definition show_int :: "int \<Rightarrow> string" where
  "show_int i = (if i < 0 then CHR ''-'' # show_nat (nat (- i)) else show_nat (nat i))"

text \<open>\<^verbatim>\<open>sep.join(xs)\<close>\<close>

fun join :: "string \<Rightarrow> string list \<Rightarrow> string" where
  "join sep [] = []"
| "join sep [x] = x"
| "join sep (x # y # ys) = x @ sep @ join sep (y # ys)"

text \<open>\<^verbatim>\<open>repr(v)\<close> and \<^verbatim>\<open>str(v)\<close> (what an f-string inserts): they differ on a string
  only, which \<^verbatim>\<open>str\<close> leaves as it is.\<close>

fun py_repr :: "(string \<Rightarrow> string) \<Rightarrow> json \<Rightarrow> string" where
  "py_repr rs JNull = ''None''"
| "py_repr rs (JBool b) = (if b then ''True'' else ''False'')"
| "py_repr rs (JNum n) = show_int n"
| "py_repr rs (JStr s) = rs s"
| "py_repr rs (JArr xs) = ''['' @ join '', '' (map (py_repr rs) xs) @ '']''"
| "py_repr rs (JObj kvs) =
     ''{'' @ join '', '' (map (\<lambda>kv. rs (fst kv) @ '': '' @ py_repr rs (snd kv)) kvs) @ ''}''"

fun py_str :: "world \<Rightarrow> json \<Rightarrow> string" where
  "py_str w (JStr s) = s"
| "py_str w v = py_repr (repr_str w) v"

section \<open>Storage\<close>

text \<open>
  A column holds what the statement's parameter held: a value of the payload
  (\<open>J JNull\<close> is Python's None, SQL's NULL) or a parsed datetime. A row lists the
  columns a statement of the code writes; columns the database fills by itself
  (serial ids) and its own type checks are not modelled.
\<close>

datatype cell = J json | T datetime

type_synonym row = "string \<Rightarrow> cell"

text \<open>The row a statement builds from the columns it names and its parameter dict.\<close>

definition row_of :: "string list \<Rightarrow> (string \<times> cell) list \<Rightarrow> row" where
  "row_of cols params =
     (\<lambda>c. if c \<in> set cols then (case map_of params c of None \<Rightarrow> J JNull | Some v \<Rightarrow> v)
          else J JNull)"

text \<open>Each table lists its rows in insertion order, the order of a serial id.\<close>

record database =
  nav_jobs :: "row list"
  nav_job_locations :: "row list"
  nav_job_contacts :: "row list"
  nav_job_categories :: "row list"
  nav_job_occupations :: "row list"
  nav_feed_state :: "row list"

section \<open>db\_writer.py\<close>

definition bindE :: "'e + 'a \<Rightarrow> ('a \<Rightarrow> 'e + 'b) \<Rightarrow> 'e + 'b" where
  "bindE m f = (case m of Inl e \<Rightarrow> Inl e | Inr v \<Rightarrow> f v)"

text \<open>\<^verbatim>\<open>d.get(k, default)\<close> and \<^verbatim>\<open>d.get(k)\<close> on a value already known to be a dict
  (an earlier \<^verbatim>\<open>get\<close> on it returned).\<close>

fun field_default :: "json \<Rightarrow> string \<Rightarrow> json \<Rightarrow> json" where
  "field_default (JObj kvs) k d = (case map_of kvs k of None \<Rightarrow> d | Some v \<Rightarrow> v)"
| "field_default _ k d = d"

definition field :: "json \<Rightarrow> string \<Rightarrow> json" where
  "field j k = field_default j k JNull"

text \<open>
  \<^verbatim>\<open>parse_dt\<close>, the helper inside \<^verbatim>\<open>_upsert_nav_job\<close>: a falsy argument gives None, a
  string is parsed and a ValueError gives None; \<^verbatim>\<open>fromisoformat\<close> raises TypeError on an
  argument that is not a string, which the helper does not catch.
\<close>

definition parse_dt :: "world \<Rightarrow> json \<Rightarrow> pyerror + cell" where
  "parse_dt w dt_str =
     (if \<not> truthy dt_str then Inr (J JNull)
      else case dt_str of
             JStr s \<Rightarrow> (case fromisoformat w s of None \<Rightarrow> Inr (J JNull) | Some d \<Rightarrow> Inr (T d))
           | _ \<Rightarrow> Inl TypeError)"

text \<open>\<^verbatim>\<open>parse_dt(nav_updated_at) or parse_dt(ad.get("updated"))\<close>: a datetime is always
  truthy, None is not.\<close>

definition nav_updated_at_of :: "world \<Rightarrow> json \<Rightarrow> json \<Rightarrow> pyerror + cell" where
  "nav_updated_at_of w job ad =
     bindE (parse_dt w (field job ''sistEndret'')) (\<lambda>a.
       case a of T d \<Rightarrow> Inr (T d) | J _ \<Rightarrow> parse_dt w (field ad ''updated''))"

text \<open>The last assignment to \<^verbatim>\<open>params["frist_dato"]\<close>: ValueError and TypeError both give
  None.\<close>

definition frist_dato_of :: "world \<Rightarrow> json \<Rightarrow> cell" where
  "frist_dato_of w ad =
     (case field ad ''applicationDue'' of
        JStr s \<Rightarrow> (case fromisoformat w s of None \<Rightarrow> J JNull | Some d \<Rightarrow> T d)
      | _ \<Rightarrow> J JNull)"

text \<open>The employer block, \<^verbatim>\<open>if isinstance(employer, dict)\<close>: the name, and each of the
  attributes orgnr, description and homepage.\<close>

fun is_dict :: "json \<Rightarrow> bool" where
  "is_dict (JObj kvs) = True"
| "is_dict _ = False"

definition employer_name_of :: "world \<Rightarrow> json \<Rightarrow> json" where
  "employer_name_of w employer =
     (if is_dict employer then field employer ''name'' else JStr (py_str w employer))"

definition employer_attr :: "json \<Rightarrow> string \<Rightarrow> json" where
  "employer_attr employer k = (if is_dict employer then field employer k else JNull)"

text \<open>\<^verbatim>\<open>loc = locations[0] if locations else {}\<close>\<close>

definition first_location :: "json \<Rightarrow> pyerror + json" where
  "first_location locations = (if truthy locations then first_item locations else Inr (JObj []))"

text \<open>\<^verbatim>\<open>ad = job.get("ad_content") or {}\<close>, on a job that is a dict.\<close>

definition ad_of :: "json \<Rightarrow> json" where
  "ad_of job = (if truthy (field job ''ad_content'') then field job ''ad_content'' else JObj [])"

text \<open>The dict \<^verbatim>\<open>params\<close> of \<^verbatim>\<open>_upsert_nav_job\<close>, as it is when the statement runs.\<close>

definition nav_job_params :: "world \<Rightarrow> datetime \<Rightarrow> json \<Rightarrow> pyerror + (string \<times> cell) list" where
  "nav_job_params w now job =
     bindE (get job ''uuid'') (\<lambda>uuid.
     let ad = ad_of job in
     bindE (get_default ad ''employer'' (JObj [])) (\<lambda>employer.
     let employer_name = employer_name_of w employer;
         employer_orgnr = employer_attr employer ''orgnr'';
         employer_desc = employer_attr employer ''description'';
         employer_homepage = employer_attr employer ''homepage'' in
     bindE (get_default ad ''workLocations'' (JArr [])) (\<lambda>locations.
     bindE (first_location locations) (\<lambda>loc.
     bindE (get loc ''municipal'') (\<lambda>kommune.
     bindE (nav_updated_at_of w job ad) (\<lambda>nav_updated_at.
     bindE (parse_dt w (field ad ''expires'')) (\<lambda>expires.
     bindE (parse_dt w (field ad ''published'')) (\<lambda>published.
     Inr [(''nav_uuid'', J uuid),
          (''job_url'', J (field ad ''link'')),
          (''job_title'', J (field ad ''title'')),
          (''company'', J employer_name),
          (''job_text_html'', J (field ad ''description'')),
          (''kommune'', J kommune),
          (''fylke'', J (field loc ''county'')),
          (''omfang'', J (field ad ''extent'')),
          (''ansettelsesform'', J (field ad ''engagementtype'')),
          (''sektor'', J (field ad ''sector'')),
          (''frist_dato'', frist_dato_of w ad),
          (''yrkeskode'', J JNull),
          (''kilde'', J (field ad ''source'')),
          (''nav_updated_at'', nav_updated_at),
          (''status'', J (field job ''status'')),
          (''expires'', expires),
          (''engagementtype'', J (field ad ''engagementtype'')),
          (''extent'', J (field ad ''extent'')),
          (''starttime'', J (field ad ''starttime'')),
          (''positioncount'', J (field ad ''positioncount'')),
          (''sector'', J (field ad ''sector'')),
          (''applicationurl'', J (field ad ''applicationUrl'')),
          (''created_at'', T now),
          (''published'', published),
          (''job_title_official'', J (field ad ''jobtitle'')),
          (''employer_orgnr'', J employer_orgnr),
          (''employer_description'', J employer_desc),
          (''employer_homepage'', J employer_homepage)]))))))))"

text \<open>The statement: the columns of the INSERT, and those the ON CONFLICT clause sets
  from the proposed row (all but \<open>nav_uuid\<close> and \<open>created_at\<close>).\<close>

definition insert_columns :: "string list" where
  "insert_columns =
     [''nav_uuid'', ''job_url'', ''job_title'', ''company'', ''job_text_html'', ''kommune'',
      ''fylke'', ''omfang'', ''ansettelsesform'', ''sektor'', ''frist_dato'', ''kilde'',
      ''nav_updated_at'', ''status'', ''expires'', ''engagementtype'', ''extent'',
      ''starttime'', ''positioncount'', ''sector'', ''applicationurl'', ''created_at'',
      ''published'', ''job_title_official'', ''employer_orgnr'', ''employer_description'',
      ''employer_homepage'']"

definition update_columns :: "string list" where
  "update_columns =
     [''job_url'', ''job_title'', ''company'', ''job_text_html'', ''kommune'', ''fylke'',
      ''omfang'', ''ansettelsesform'', ''sektor'', ''frist_dato'', ''kilde'',
      ''nav_updated_at'', ''status'', ''expires'', ''engagementtype'', ''extent'',
      ''starttime'', ''positioncount'', ''sector'', ''applicationurl'', ''published'',
      ''job_title_official'', ''employer_orgnr'', ''employer_description'',
      ''employer_homepage'']"

definition do_update :: "row \<Rightarrow> row \<Rightarrow> row" where
  "do_update existing excluded =
     (\<lambda>c. if c \<in> set update_columns then excluded c else existing c)"

text \<open>INSERT ... ON CONFLICT (nav\_uuid) DO UPDATE: the row with the key is updated in
  place, a new key is appended.\<close>

fun upsert :: "row \<Rightarrow> row list \<Rightarrow> row list" where
  "upsert new [] = [new]"
| "upsert new (r # rs) =
     (if r ''nav_uuid'' = new ''nav_uuid'' then do_update r new # rs else r # upsert new rs)"

definition upsert_nav_job :: "world \<Rightarrow> datetime \<Rightarrow> json \<Rightarrow> database \<Rightarrow> pyerror + database" where
  "upsert_nav_job w now job db =
     bindE (nav_job_params w now job) (\<lambda>params.
       Inr (db\<lparr>nav_jobs := upsert (row_of insert_columns params) (nav_jobs db)\<rparr>))"

text \<open>DELETE FROM t WHERE nav\_uuid = :uuid\<close>

definition delete_where :: "json \<Rightarrow> row list \<Rightarrow> row list" where
  "delete_where uuid rows = filter (\<lambda>r. r ''nav_uuid'' \<noteq> J uuid) rows"

text \<open>
  The loop shared by \<^verbatim>\<open>_insert_locations\<close>, \<^verbatim>\<open>_insert_categories\<close> and
  \<^verbatim>\<open>_insert_occupations\<close>: the key is the tuple of the entry's fields \<open>ks\<close>, \<open>seen\<close> the
  set of keys so far, and an entry whose key is new adds a row. Looking a tuple up in a
  set hashes it, which raises TypeError when a component is a list or a dict.
\<close>

fun collect_rows ::
  "string list \<Rightarrow> (json \<Rightarrow> row) \<Rightarrow> json list \<Rightarrow> json list list \<Rightarrow> pyerror + row list" where
  "collect_rows ks mk [] seen = Inr []"
| "collect_rows ks mk (x # xs) seen =
     (case x of
        JObj kvs \<Rightarrow>
          (let key = map (field x) ks in
           if \<not> list_all hashable key then Inl TypeError
           else if map hkey key \<in> set seen then collect_rows ks mk xs seen
           else (case collect_rows ks mk xs (map hkey key # seen) of
                   Inl e \<Rightarrow> Inl e
                 | Inr data \<Rightarrow> Inr (mk x # data)))
      | _ \<Rightarrow> Inl AttributeError)"

definition location_key :: "string list" where
  "location_key = [''address'', ''city'', ''postalCode'', ''country'', ''municipal'', ''county'']"

definition location_row :: "json \<Rightarrow> json \<Rightarrow> row" where
  "location_row uuid loc =
     row_of [''nav_uuid'', ''address'', ''city'', ''postal_code'', ''county'', ''municipal'',
             ''country'']
       [(''nav_uuid'', J uuid),
        (''address'', J (field loc ''address'')),
        (''city'', J (field loc ''city'')),
        (''postal_code'', J (field loc ''postalCode'')),
        (''county'', J (field loc ''county'')),
        (''municipal'', J (field loc ''municipal'')),
        (''country'', J (field loc ''country''))]"

text \<open>
  \<^verbatim>\<open>_insert_locations\<close>: the list \<^verbatim>\<open>data\<close> (none on the early return), then the INSERT
  of its rows under \<^verbatim>\<open>if data\<close>. The other three functions have the same shape.
\<close>

definition locations_data :: "json \<Rightarrow> json \<Rightarrow> pyerror + row list" where
  "locations_data uuid locations =
     (if \<not> truthy locations then Inr []
      else bindE (py_iter locations) (\<lambda>locs.
             collect_rows location_key (location_row uuid) locs []))"

definition insert_locations :: "json \<Rightarrow> json \<Rightarrow> database \<Rightarrow> pyerror + database" where
  "insert_locations uuid locations db =
     bindE (locations_data uuid locations) (\<lambda>data.
       Inr (if data \<noteq> [] then db\<lparr>nav_job_locations := nav_job_locations db @ data\<rparr>
            else db))"

definition contact_row :: "json \<Rightarrow> json \<Rightarrow> row" where
  "contact_row uuid c =
     row_of [''nav_uuid'', ''name'', ''email'', ''phone'', ''role'', ''title'']
       [(''nav_uuid'', J uuid),
        (''name'', J (field c ''name'')),
        (''email'', J (field c ''email'')),
        (''phone'', J (field c ''phone'')),
        (''role'', J (field c ''role'')),
        (''title'', J (field c ''title''))]"

text \<open>The loop of \<^verbatim>\<open>_insert_contacts\<close>: one row for each entry, no key and no set.\<close>

fun contact_rows :: "json \<Rightarrow> json list \<Rightarrow> pyerror + row list" where
  "contact_rows uuid [] = Inr []"
| "contact_rows uuid (c # cs) =
     (case c of
        JObj kvs \<Rightarrow> (case contact_rows uuid cs of
                       Inl e \<Rightarrow> Inl e
                     | Inr data \<Rightarrow> Inr (contact_row uuid c # data))
      | _ \<Rightarrow> Inl AttributeError)"

definition contacts_data :: "json \<Rightarrow> json \<Rightarrow> pyerror + row list" where
  "contacts_data uuid contacts =
     (if \<not> truthy contacts then Inr []
      else bindE (py_iter contacts) (\<lambda>cs. contact_rows uuid cs))"

definition insert_contacts :: "json \<Rightarrow> json \<Rightarrow> database \<Rightarrow> pyerror + database" where
  "insert_contacts uuid contacts db =
     bindE (contacts_data uuid contacts) (\<lambda>data.
       Inr (if data \<noteq> [] then db\<lparr>nav_job_contacts := nav_job_contacts db @ data\<rparr>
            else db))"

definition category_key :: "string list" where
  "category_key = [''categoryType'', ''code'', ''name'']"

definition category_row :: "json \<Rightarrow> json \<Rightarrow> row" where
  "category_row uuid c =
     row_of [''nav_uuid'', ''category_type'', ''code'', ''name'']
       [(''nav_uuid'', J uuid),
        (''category_type'', J (field c ''categoryType'')),
        (''code'', J (field c ''code'')),
        (''name'', J (field c ''name''))]"

definition categories_data :: "json \<Rightarrow> json \<Rightarrow> pyerror + row list" where
  "categories_data uuid categories =
     (if \<not> truthy categories then Inr []
      else bindE (py_iter categories) (\<lambda>cs.
             collect_rows category_key (category_row uuid) cs []))"

definition insert_categories :: "json \<Rightarrow> json \<Rightarrow> database \<Rightarrow> pyerror + database" where
  "insert_categories uuid categories db =
     bindE (categories_data uuid categories) (\<lambda>data.
       Inr (if data \<noteq> [] then db\<lparr>nav_job_categories := nav_job_categories db @ data\<rparr>
            else db))"

definition occupation_key :: "string list" where
  "occupation_key = [''level1'', ''level2'']"

definition occupation_row :: "json \<Rightarrow> json \<Rightarrow> row" where
  "occupation_row uuid oc =
     row_of [''nav_uuid'', ''level1'', ''level2'']
       [(''nav_uuid'', J uuid),
        (''level1'', J (field oc ''level1'')),
        (''level2'', J (field oc ''level2''))]"

definition occupations_data :: "json \<Rightarrow> json \<Rightarrow> pyerror + row list" where
  "occupations_data uuid occupations =
     (if \<not> truthy occupations then Inr []
      else bindE (py_iter occupations) (\<lambda>os.
             collect_rows occupation_key (occupation_row uuid) os []))"

definition insert_occupations :: "json \<Rightarrow> json \<Rightarrow> database \<Rightarrow> pyerror + database" where
  "insert_occupations uuid occupations db =
     bindE (occupations_data uuid occupations) (\<lambda>data.
       Inr (if data \<noteq> [] then db\<lparr>nav_job_occupations := nav_job_occupations db @ data\<rparr>
            else db))"

text \<open>
  \<^verbatim>\<open>save_job\<close>. The body of \<^verbatim>\<open>with self.engine.begin()\<close> is one transaction: an exception
  rolls it back and leaves the function, so the result is either the error, with the
  caller's database as it was, or the database after all nine statements.
\<close>

definition save_job :: "world \<Rightarrow> datetime \<Rightarrow> json \<Rightarrow> database \<Rightarrow> pyerror + database" where
  "save_job w now job_data db =
     bindE (get job_data ''uuid'') (\<lambda>uuid.
     if \<not> truthy uuid then Inr db
     else
       bindE (upsert_nav_job w now job_data db) (\<lambda>db1.
       bindE (get_default job_data ''ad_content'' (JObj [])) (\<lambda>ad_content.
       let db2 = db1\<lparr>nav_job_locations := delete_where uuid (nav_job_locations db1)\<rparr> in
       bindE (get_default ad_content ''workLocations'' (JArr [])) (\<lambda>work_locations.
       bindE (insert_locations uuid work_locations db2) (\<lambda>db3.
       let db4 = db3\<lparr>nav_job_contacts := delete_where uuid (nav_job_contacts db3)\<rparr> in
       bindE (insert_contacts uuid (field_default ad_content ''contactList'' (JArr [])) db4) (\<lambda>db5.
       let db6 = db5\<lparr>nav_job_categories := delete_where uuid (nav_job_categories db5)\<rparr> in
       bindE (insert_categories uuid (field_default ad_content ''categoryList'' (JArr [])) db6) (\<lambda>db7.
       let db8 = db7\<lparr>nav_job_occupations := delete_where uuid (nav_job_occupations db7)\<rparr> in
       insert_occupations uuid (field_default ad_content ''occupationCategories'' (JArr [])) db8)))))))"

text \<open>The database a caller sees after a call that may have raised.\<close>

definition db_after :: "pyerror + database \<Rightarrow> database \<Rightarrow> database" where
  "db_after r db = (case r of Inl e \<Rightarrow> db | Inr db' \<Rightarrow> db')"

text \<open>\<^verbatim>\<open>get_last_feed_state\<close>: \<open>next_url\<close> and \<open>last_job_date\<close> of the row with the
  greatest id, or None.\<close>

definition get_last_feed_state :: "database \<Rightarrow> (cell \<times> cell) option" where
  "get_last_feed_state db =
     (case rev (nav_feed_state db) of
        [] \<Rightarrow> None
      | r # rs \<Rightarrow> Some (r ''next_url'', r ''last_job_date''))"

definition feed_state_columns :: "string list" where
  "feed_state_columns =
     [''next_url'', ''last_job_date'', ''updated_at'', ''title'', ''home_page_url'',
      ''feed_url'', ''description'']"

text \<open>DELETE FROM nav\_feed\_state\<close>

definition delete_feed_state :: "database \<Rightarrow> database" where
  "delete_feed_state db = db\<lparr>nav_feed_state := []\<rparr>"

text \<open>\<^verbatim>\<open>update_feed_state\<close>: the DELETE and the INSERT, in one transaction.\<close>

definition update_feed_state ::
  "datetime \<Rightarrow> json \<Rightarrow> cell \<Rightarrow> json \<Rightarrow> database \<Rightarrow> pyerror + database" where
  "update_feed_state now next_url last_job_date metadata db =
     (let metadata = (if truthy metadata then metadata else JObj []) in
      bindE (get metadata ''title'') (\<lambda>title.
        let db1 = delete_feed_state db in
        Inr (db1\<lparr>nav_feed_state := nav_feed_state db1 @
               [row_of feed_state_columns
                  [(''next_url'', J next_url),
                   (''last_job_date'', last_job_date),
                   (''updated_at'', T now),
                   (''title'', J title),
                   (''home_page_url'', J (field metadata ''home_page_url'')),
                   (''feed_url'', J (field metadata ''feed_url'')),
                   (''description'', J (field metadata ''description''))]]\<rparr>)))"

section \<open>nav\_client.py\<close>

text \<open>
  \<^verbatim>\<open>get_feed_page(page_id, last)\<close> and \<^verbatim>\<open>get_feed_entry(entry_id)\<close>: the endpoint is an
  f-string of the id, and \<^verbatim>\<open>last=true\<close> is sent only without a page id.
\<close>

definition get_feed_page :: "world \<Rightarrow> json \<Rightarrow> bool \<Rightarrow> pyerror + json" where
  "get_feed_page w page_id last_flag =
     (if truthy page_id then http w (''/api/v1/feed/'' @ py_str w page_id) False
      else http w ''/api/v1/feed'' last_flag)"

definition get_feed_entry :: "world \<Rightarrow> json \<Rightarrow> pyerror + json" where
  "get_feed_entry w entry_id = http w (''/api/v1/feedentry/'' @ py_str w entry_id) False"

text \<open>
  The generator \<^verbatim>\<open>fetch_feed_pages(start_page_id, last)\<close>. Its first fetch, and what it
  does when the consumer asks for the element after \<open>page_data\<close>: it stops (\<open>Inr None\<close>)
  when \<open>next_id\<close> is falsy, and else fetches that page.
\<close>

definition first_page :: "world \<Rightarrow> json \<Rightarrow> bool \<Rightarrow> pyerror + json" where
  "first_page w start_page_id last_flag =
     (if \<not> truthy start_page_id then get_feed_page w JNull last_flag
      else get_feed_page w start_page_id False)"

definition next_page :: "world \<Rightarrow> json \<Rightarrow> pyerror + json option" where
  "next_page w page_data =
     (case get page_data ''next_id'' of
        Inl e \<Rightarrow> Inl e
      | Inr next_id \<Rightarrow>
          if \<not> truthy next_id then Inr None
          else (case get_feed_page w next_id False of
                  Inl e \<Rightarrow> Inl e
                | Inr p \<Rightarrow> Inr (Some p)))"

text \<open>
  The pages the generator yields to a consumer that asks for at most \<open>n\<close> elements after
  the first, and how the sequence ends: the generator returned, a fetch raised, or the
  consumer stopped asking.
\<close>

datatype walk_end = Exhausted | Raised pyerror | Suspended

fun follow :: "world \<Rightarrow> nat \<Rightarrow> json \<Rightarrow> json list \<times> walk_end" where
  "follow w 0 page = ([page], Suspended)"
| "follow w (Suc n) page =
     (case next_page w page of
        Inl e \<Rightarrow> ([page], Raised e)
      | Inr None \<Rightarrow> ([page], Exhausted)
      | Inr (Some p) \<Rightarrow> (page # fst (follow w n p), snd (follow w n p)))"

definition fetch_feed_pages :: "world \<Rightarrow> json \<Rightarrow> bool \<Rightarrow> nat \<Rightarrow> json list \<times> walk_end" where
  "fetch_feed_pages w start_page_id last_flag n =
     (case first_page w start_page_id last_flag of
        Inl e \<Rightarrow> ([], Raised e)
      | Inr page \<Rightarrow> follow w n page)"

section \<open>main.py\<close>

text \<open>
  The arguments after \<^verbatim>\<open>parse_args\<close>; \<open>filter_date\<close> is the naive datetime that
  \<^verbatim>\<open>strptime\<close> made of \<^verbatim>\<open>--start-date\<close>.
\<close>

record config =
  limit :: "int option"
  reset :: bool
  start_from_beginning :: bool
  filter_date :: "wallclock option"
  start_page_id :: "string option"

text \<open>The calls of the logger of main.py, from the reset on.\<close>

datatype log_entry =
    ResettingFeedState
  | FeedStateCleared
  | ManualStartPage string
  | ResumingFrom json
  | StartingFromBeginning
  | StartingFromLast
  | ProcessingPage nat
  | AllItemsSkipped
  | FetchingDetails nat
  | SavedSoFar nat
  | ErrorProcessingItem json pyerror
  | ReachedLimit int
  | LimitStateSaved string
  | EndOfFeed json
  | StateUpdated json
  | SyncComplete nat nat
  | AnErrorOccurred pyerror

text \<open>
  The state of a run: the database, the two counters, the log, and the number of calls of
  \<^verbatim>\<open>save_job\<close> and \<^verbatim>\<open>update_feed_state\<close> so far, by which the clock of the world gives the
  time of a call.
\<close>

record run_state =
  store :: database
  fetched_count :: nat
  skipped_count :: nat
  logged :: "log_entry list"
  storage_calls :: nat

definition info :: "log_entry \<Rightarrow> run_state \<Rightarrow> run_state" where
  "info entry st = st\<lparr>logged := logged st @ [entry]\<rparr>"

text \<open>\<^verbatim>\<open>sep in s\<close> and \<^verbatim>\<open>s.split(sep)\<close> for a separator that is not empty: the scan goes
  from the left and resumes after each match; \<open>skip\<close> counts the characters of a match
  still to pass.\<close>

fun contains :: "string \<Rightarrow> string \<Rightarrow> bool" where
  "contains sep [] = (sep = [])"
| "contains sep (c # cs) = (prefix sep (c # cs) \<or> contains sep cs)"

fun split_aux :: "string \<Rightarrow> string \<Rightarrow> nat \<Rightarrow> string \<Rightarrow> string list" where
  "split_aux sep acc skip [] = [rev acc]"
| "split_aux sep acc (Suc k) (c # cs) = split_aux sep acc k cs"
| "split_aux sep acc 0 (c # cs) =
     (if prefix sep (c # cs) then rev acc # split_aux sep [] (length sep - 1) cs
      else split_aux sep (c # acc) 0 cs)"

definition split :: "string \<Rightarrow> string \<Rightarrow> string list" where
  "split sep s = split_aux sep [] 0 s"

text \<open>
  Lines 73 to 95: where the run starts. The result is the \<open>start_page_id\<close> and the \<open>last\<close>
  handed to \<^verbatim>\<open>fetch_feed_pages\<close>, and the line logged. The cursor's \<open>next_url\<close> is read
  back as it was stored; \<^verbatim>\<open>in\<close> and \<^verbatim>\<open>split\<close> are those of a string, and on another value
  \<^verbatim>\<open>in\<close> is the membership of a list or a dict, which have no \<^verbatim>\<open>split\<close>.
\<close>

definition resume_page_id :: "cell \<Rightarrow> pyerror + json" where
  "resume_page_id next_url =
     (case next_url of
        T d \<Rightarrow> Inl TypeError
      | J (JStr s) \<Rightarrow>
          Inr (if contains ''/feed/'' s then JStr (last (split ''/feed/'' s)) else JStr s)
      | J (JArr xs) \<Rightarrow>
          if JStr ''/feed/'' \<in> set xs then Inl AttributeError else Inr (JArr xs)
      | J (JObj kvs) \<Rightarrow>
          if ''/feed/'' \<in> fst ` set kvs then Inl AttributeError else Inr (JObj kvs)
      | J v \<Rightarrow> Inl TypeError)"

definition cell_truthy :: "cell \<Rightarrow> bool" where
  "cell_truthy c = (case c of J v \<Rightarrow> truthy v | T d \<Rightarrow> True)"

definition start_of :: "config \<Rightarrow> (cell \<times> cell) option \<Rightarrow> pyerror + (json \<times> bool \<times> log_entry)" where
  "start_of cfg state =
     (case start_page_id cfg of
        Some (c # cs) \<Rightarrow> Inr (JStr (c # cs), False, ManualStartPage (c # cs))
      | _ \<Rightarrow>
        (case state of
           Some (next_url, last_job_date) \<Rightarrow>
             if cell_truthy next_url then
               (case resume_page_id next_url of
                  Inl e \<Rightarrow> Inl e
                | Inr page_id \<Rightarrow> Inr (page_id, False, ResumingFrom page_id))
             else if start_from_beginning cfg \<and> reset cfg
               then Inr (JNull, False, StartingFromBeginning)
               else Inr (JNull, True, StartingFromLast)
         | None \<Rightarrow>
             if start_from_beginning cfg \<and> reset cfg
               then Inr (JNull, False, StartingFromBeginning)
               else Inr (JNull, True, StartingFromLast)))"

text \<open>
  Lines 123 to 132, the check of the summary date of an item (a dict): only the
  ValueError of \<^verbatim>\<open>fromisoformat\<close> is caught, so a \<open>date_modified\<close> that is truthy and not a
  string raises TypeError out of the loop.
\<close>

definition summary_is_old :: "world \<Rightarrow> wallclock option \<Rightarrow> json \<Rightarrow> pyerror + bool" where
  "summary_is_old w fd item =
     (case fd of
        None \<Rightarrow> Inr False
      | Some t \<Rightarrow>
          (let summary_date_str = field item ''date_modified'' in
           if \<not> truthy summary_date_str then Inr False
           else case summary_date_str of
                  JStr s \<Rightarrow>
                    (case fromisoformat w s of
                       None \<Rightarrow> Inr False
                     | Some d \<Rightarrow> Inr (wall (replace_tzinfo_None d) < t))
                | _ \<Rightarrow> Inl TypeError))"

text \<open>
  Lines 116 to 133, the loop that builds \<open>items_to_fetch\<close>: the result is that list and
  the number of items it counted as skipped. An item whose id was seen on the page is
  passed over; an id that cannot be hashed raises TypeError.
\<close>

fun prefilter ::
  "world \<Rightarrow> wallclock option \<Rightarrow> json list \<Rightarrow> json list \<Rightarrow> pyerror + (json list \<times> nat)" where
  "prefilter w fd [] seen = Inr ([], 0)"
| "prefilter w fd (item # items) seen =
     (case get item ''id'' of
        Inl e \<Rightarrow> Inl e
      | Inr item_id \<Rightarrow>
          if \<not> hashable item_id then Inl TypeError
          else if hkey item_id \<in> set seen then prefilter w fd items seen
          else (case summary_is_old w fd item of
                  Inl e \<Rightarrow> Inl e
                | Inr old \<Rightarrow>
                    (case prefilter w fd items (hkey item_id # seen) of
                       Inl e \<Rightarrow> Inl e
                     | Inr (to_fetch, skipped) \<Rightarrow>
                         if old then Inr (to_fetch, Suc skipped)
                         else Inr (item # to_fetch, skipped))))"

text \<open>
  Lines 174 to 184, the check of the detail date: the bare \<^verbatim>\<open>except\<close> catches the
  ValueError and the TypeError of \<^verbatim>\<open>fromisoformat\<close>; \<^verbatim>\<open>ad.get\<close> is outside it.
\<close>

definition detail_is_old :: "world \<Rightarrow> wallclock option \<Rightarrow> json \<Rightarrow> pyerror + bool" where
  "detail_is_old w fd details =
     (case fd of
        None \<Rightarrow> Inr False
      | Some t \<Rightarrow>
          bindE (get (field_default details ''ad_content'' (JObj [])) ''published'') (\<lambda>published.
            let ad = field_default details ''ad_content'' (JObj []);
                date_str = (if truthy published then published else field ad ''updated'')
            in if \<not> truthy date_str then Inr False
               else case date_str of
                      JStr s \<Rightarrow>
                        (case fromisoformat w s of
                           None \<Rightarrow> Inr False
                         | Some d \<Rightarrow> Inr (wall (replace_tzinfo_None d) < t))
                    | _ \<Rightarrow> Inr False))"

text \<open>
  Lines 159 to 184, up to the call of \<^verbatim>\<open>save_job\<close>: the result of the future and the
  filters. The verdict is to skip the record (which the caller counts) or to save it.
\<close>

datatype verdict = Skip | Save json

definition examine :: "world \<Rightarrow> config \<Rightarrow> json \<Rightarrow> pyerror + verdict" where
  "examine w cfg item =
     bindE (get_feed_entry w (field item ''id'')) (\<lambda>details.
     if \<not> truthy details then Inr Skip
     else
       bindE (get details ''status'') (\<lambda>status.
       if status = JStr ''INACTIVE'' \<or> \<not> truthy (field details ''ad_content'') then Inr Skip
       else
         bindE (detail_is_old w (filter_date cfg) details) (\<lambda>old.
         if old then Inr Skip else Inr (Save details))))"

text \<open>\<^verbatim>\<open>args.limit and fetched_count >= args.limit\<close>\<close>

definition limit_reached :: "config \<Rightarrow> nat \<Rightarrow> bool" where
  "limit_reached cfg n = (case limit cfg of None \<Rightarrow> False | Some l \<Rightarrow> l \<noteq> 0 \<and> l \<le> int n)"

text \<open>
  Lines 157 to 199, the body of the loop over the completed futures: the new state, and
  whether the loop breaks. An exception of the fetch, of a filter or of \<^verbatim>\<open>save_job\<close> is
  caught and logged with the id of the item.
\<close>

definition process_item :: "world \<Rightarrow> config \<Rightarrow> json \<Rightarrow> run_state \<Rightarrow> run_state \<times> bool" where
  "process_item w cfg item st =
     (case examine w cfg item of
        Inl e \<Rightarrow> (info (ErrorProcessingItem (field item ''id'') e) st, False)
      | Inr Skip \<Rightarrow> (st\<lparr>skipped_count := skipped_count st + 1\<rparr>, False)
      | Inr (Save details) \<Rightarrow>
          (case save_job w (clock w (storage_calls st)) details (store st) of
             Inl e \<Rightarrow>
               (info (ErrorProcessingItem (field item ''id'') e)
                  (st\<lparr>storage_calls := storage_calls st + 1\<rparr>), False)
           | Inr db' \<Rightarrow>
               (let n = fetched_count st + 1;
                    st1 = st\<lparr>store := db', fetched_count := n,
                             storage_calls := storage_calls st + 1\<rparr>;
                    st2 = (if n mod 50 = 0 then info (SavedSoFar n) st1 else st1)
                in (st2, limit_reached cfg n))))"

fun process_items :: "world \<Rightarrow> config \<Rightarrow> json list \<Rightarrow> run_state \<Rightarrow> run_state" where
  "process_items w cfg [] st = st"
| "process_items w cfg (item # items) st =
     (case process_item w cfg item st of
        (st', True) \<Rightarrow> st'
      | (st', False) \<Rightarrow> process_items w cfg items st')"

text \<open>A call of \<^verbatim>\<open>update_feed_state\<close> from the loop (its metadata is a dict or None, so it
  does not raise).\<close>

definition write_cursor :: "world \<Rightarrow> json \<Rightarrow> json \<Rightarrow> run_state \<Rightarrow> run_state" where
  "write_cursor w next_url metadata st =
     st\<lparr>store := db_after (update_feed_state (clock w (storage_calls st)) next_url (J JNull)
                          metadata (store st)) (store st),
        storage_calls := storage_calls st + 1\<rparr>"

definition page_metadata :: "json \<Rightarrow> json" where
  "page_metadata page =
     JObj [(''title'', field page ''title''), (''description'', field page ''description'')]"

text \<open>
  Lines 109 to 236, the body of the loop over the pages: the state after the page, and
  whether the loop goes on to the next page, breaks, or is left by an exception (which
  in this body can only come before the first result is handled; \<^verbatim>\<open>fetch_ids\<close> raises
  KeyError for an item without the key \<open>id\<close>). \<open>finish_page\<close> is the part after the
  loop over the futures, lines 201 to 236.
\<close>

datatype page_end = NextPage | BreakLoop | PageRaised pyerror

definition finish_page :: "world \<Rightarrow> config \<Rightarrow> json \<Rightarrow> run_state \<Rightarrow> page_end \<times> run_state" where
  "finish_page w cfg page st =
     (if limit_reached cfg (fetched_count st) then
        (let st1 = info (ReachedLimit (case limit cfg of Some l \<Rightarrow> l | None \<Rightarrow> 0)) st;
             current_id = field page ''id''
         in if truthy current_id then
              (let resume_url = ''/api/v1/feed/'' @ py_str w current_id
               in (BreakLoop,
                   info (LimitStateSaved resume_url)
                     (write_cursor w (JStr resume_url) (page_metadata page) st1)))
            else (BreakLoop, st1))
      else
        (let next_url = field page ''next_url'';
             current_id = field page ''id'';
             at_end = (\<not> truthy next_url \<and> truthy current_id);
             next_url' = (if at_end then JStr (''/api/v1/feed/'' @ py_str w current_id)
                          else next_url);
             st1 = (if at_end then info (EndOfFeed current_id) st else st)
         in if truthy next_url' then
              (NextPage,
               info (StateUpdated next_url') (write_cursor w next_url' (page_metadata page) st1))
            else (NextPage, st1)))"

definition process_page :: "world \<Rightarrow> config \<Rightarrow> json \<Rightarrow> run_state \<Rightarrow> page_end \<times> run_state" where
  "process_page w cfg page st =
     (case get_default page ''items'' (JArr []) of
        Inl e \<Rightarrow> (PageRaised e, st)
      | Inr items \<Rightarrow>
     (case py_len items of
        Inl e \<Rightarrow> (PageRaised e, st)
      | Inr n \<Rightarrow>
     (let st1 = info (ProcessingPage n) st in
      case py_iter items of
        Inl e \<Rightarrow> (PageRaised e, st1)
      | Inr item_list \<Rightarrow>
     (case prefilter w (filter_date cfg) item_list [] of
        Inl e \<Rightarrow> (PageRaised e, st1)
      | Inr (items_to_fetch, skipped) \<Rightarrow>
     (let st2 = st1\<lparr>skipped_count := skipped_count st1 + skipped\<rparr> in
      if items_to_fetch = [] then
        (let st3 = info AllItemsSkipped st2
         in if truthy (field page ''next_url'')
            then (NextPage, write_cursor w (field page ''next_url'') JNull st3)
            else (NextPage, st3))
      else
        (let st3 = info (FetchingDetails (length items_to_fetch)) st2
         in if \<not> list_all (\<lambda>i. has_key i ''id'') items_to_fetch
            then (PageRaised KeyError, st3)
            else finish_page w cfg page
                   (process_items w cfg (as_completed w items_to_fetch) st3)))))))"

text \<open>
  The loop over the pages, for at most \<open>fuel\<close> pages after the first: after a page the
  generator is asked for the next one. The run ends when the loop is done (the feed is
  exhausted or the limit broke the loop), when an exception leaves the loop, or, in the
  model only, when the fuel is used up.
\<close>

datatype run_end = RunDone | RunRaised pyerror | OutOfFuel

fun page_loop :: "world \<Rightarrow> config \<Rightarrow> nat \<Rightarrow> json \<Rightarrow> run_state \<Rightarrow> run_end \<times> run_state" where
  "page_loop w cfg fuel page st =
     (case process_page w cfg page st of
        (PageRaised e, st') \<Rightarrow> (RunRaised e, st')
      | (BreakLoop, st') \<Rightarrow> (RunDone, st')
      | (NextPage, st') \<Rightarrow>
          (case next_page w page of
             Inl e \<Rightarrow> (RunRaised e, st')
           | Inr None \<Rightarrow> (RunDone, st')
           | Inr (Some p) \<Rightarrow>
               (case fuel of
                  0 \<Rightarrow> (OutOfFuel, st')
                | Suc n \<Rightarrow> page_loop w cfg n p st')))"

text \<open>
  \<^verbatim>\<open>main\<close> from the reset (line 59) to the summary (line 238). The calls before and
  after it (\<^verbatim>\<open>ensure_materialized_views\<close>, \<^verbatim>\<open>refresh_materialized_views\<close>,
  \<^verbatim>\<open>update_system_parameter\<close>) are to methods whose code is not in db\_writer.py as it is
  at hand; they concern views and a system parameter, not the tables of the model, and are
  left out, as are the two schema checks, which add columns and change no row.
\<close>

definition initial_state :: "database \<Rightarrow> run_state" where
  "initial_state db0 =
     \<lparr>store = db0, fetched_count = 0, skipped_count = 0, logged = [], storage_calls = 0\<rparr>"

definition run :: "world \<Rightarrow> config \<Rightarrow> nat \<Rightarrow> database \<Rightarrow> run_end \<times> run_state" where
  "run w cfg fuel db0 =
     (let st0 = initial_state db0;
          st1 = (if reset cfg
                 then info FeedStateCleared
                        (info ResettingFeedState (st0\<lparr>store := delete_feed_state db0\<rparr>))
                 else st0)
      in case start_of cfg (get_last_feed_state (store st1)) of
           Inl e \<Rightarrow> (RunRaised e, info (AnErrorOccurred e) st1)
         | Inr (start, last_flag, line) \<Rightarrow>
             (case first_page w start last_flag of
                Inl e \<Rightarrow> (RunRaised e, info (AnErrorOccurred e) (info line st1))
              | Inr page \<Rightarrow>
                  (case page_loop w cfg fuel page (info line st1) of
                     (RunDone, st') \<Rightarrow>
                       (RunDone, info (SyncComplete (fetched_count st') (skipped_count st')) st')
                   | (RunRaised e, st') \<Rightarrow> (RunRaised e, info (AnErrorOccurred e) st')
                   | (OutOfFuel, st') \<Rightarrow> (OutOfFuel, st'))))"

section \<open>Queries and sample data\<close>

text \<open>SELECT * FROM nav\_jobs WHERE nav\_uuid = :uuid, and the same on a child table.\<close>

definition job_row :: "database \<Rightarrow> json \<Rightarrow> row option" where
  "job_row db uuid = find (\<lambda>r. r ''nav_uuid'' = J uuid) (nav_jobs db)"

definition rows_of :: "json \<Rightarrow> row list \<Rightarrow> row list" where
  "rows_of uuid rows = filter (\<lambda>r. r ''nav_uuid'' = J uuid) rows"

text \<open>SELECT c FROM nav\_jobs WHERE nav\_uuid = :uuid\<close>

definition stored :: "database \<Rightarrow> json \<Rightarrow> string \<Rightarrow> cell option" where
  "stored db uuid c = map_option (\<lambda>r. r c) (job_row db uuid)"

text \<open>\<^verbatim>\<open>ad_content = job_data.get("ad_content", {})\<close> of \<^verbatim>\<open>save_job\<close>, on a job that is a
  dict, and the entries of a child collection: those of a list; a payload without the
  list has none.\<close>

definition ad_content_of :: "json \<Rightarrow> json" where
  "ad_content_of job = field_default job ''ad_content'' (JObj [])"

fun entries :: "json \<Rightarrow> json list" where
  "entries (JArr xs) = xs"
| "entries _ = []"

text \<open>The key under which an entry is looked up in \<^verbatim>\<open>seen\<close>.\<close>

definition entry_key :: "string list \<Rightarrow> json \<Rightarrow> json list" where
  "entry_key ks x = map (\<lambda>k. hkey (field x k)) ks"

text \<open>The database after a call of \<^verbatim>\<open>save_job\<close> that returns: the parent row upserted,
  and in each child table the rows of the identity replaced.\<close>

definition saved ::
  "json \<Rightarrow> row \<Rightarrow> row list \<Rightarrow> row list \<Rightarrow> row list \<Rightarrow> row list \<Rightarrow> database \<Rightarrow> database" where
  "saved uuid r ld cd gd od db =
     db\<lparr>nav_jobs := upsert r (nav_jobs db),
        nav_job_locations := delete_where uuid (nav_job_locations db) @ ld,
        nav_job_contacts := delete_where uuid (nav_job_contacts db) @ cd,
        nav_job_categories := delete_where uuid (nav_job_categories db) @ gd,
        nav_job_occupations := delete_where uuid (nav_job_occupations db) @ od\<rparr>"

text \<open>A payload with the fields \<open>rest\<close> whose \<open>ad_content\<close> holds \<open>k: v\<close> besides the
  fields \<open>ad\<close>.\<close>

definition with_ad_field :: "(string \<times> json) list \<Rightarrow> (string \<times> json) list \<Rightarrow> string \<Rightarrow> json \<Rightarrow> json" where
  "with_ad_field rest ad k v = JObj ((''ad_content'', JObj ((k, v) # ad)) # rest)"

text \<open>The payload value a column holds (None for a datetime).\<close>

definition unJ :: "cell \<Rightarrow> json" where
  "unJ c = (case c of J v \<Rightarrow> v | T d \<Rightarrow> JNull)"

text \<open>Page \<open>q\<close> is the page the \<open>next_id\<close> of page \<open>p\<close> points to.\<close>

definition linked :: "world \<Rightarrow> json \<Rightarrow> json \<Rightarrow> bool" where
  "linked w p q =
     (truthy (field p ''next_id'') \<and> get_feed_page w (field p ''next_id'') False = Inr q)"

text \<open>
  What becomes of an item in the loop over the futures, and the lines of a log that
  report a failed item, with the id and the exception they name. Whether \<^verbatim>\<open>save_job\<close>
  raises depends on the payload only, so the fate is read off a call on the empty database.
\<close>

datatype fate = Raises pyerror | Skipped | Saved

definition fate_of :: "world \<Rightarrow> config \<Rightarrow> json \<Rightarrow> fate" where
  "fate_of w cfg item =
     (case examine w cfg item of
        Inl e \<Rightarrow> Raises e
      | Inr Skip \<Rightarrow> Skipped
      | Inr (Save details) \<Rightarrow>
          (case save_job w (clock w 0) details
                  \<lparr>nav_jobs = [], nav_job_locations = [], nav_job_contacts = [],
                   nav_job_categories = [], nav_job_occupations = [], nav_feed_state = []\<rparr> of
             Inl e \<Rightarrow> Raises e
           | Inr d \<Rightarrow> Saved))"

fun item_errors :: "log_entry list \<Rightarrow> (json \<times> pyerror) list" where
  "item_errors [] = []"
| "item_errors (ErrorProcessingItem i e # es) = (i, e) # item_errors es"
| "item_errors (x # es) = item_errors es"

definition failures :: "world \<Rightarrow> config \<Rightarrow> json list \<Rightarrow> (json \<times> pyerror) list" where
  "failures w cfg its =
     concat (map (\<lambda>i. case fate_of w cfg i of Raises e \<Rightarrow> [(field i ''id'', e)] | _ \<Rightarrow> []) its)"

text \<open>The operations on the cursor table: \<^verbatim>\<open>update_feed_state\<close> as a caller sees it (a
  call that raises leaves the table as it was) and the DELETE of \<^verbatim>\<open>--reset\<close>.\<close>

datatype cursor_op = Write datetime json cell json | Clear

fun apply_cursor_op :: "cursor_op \<Rightarrow> database \<Rightarrow> database" where
  "apply_cursor_op (Write now next_url last_job_date metadata) db =
     db_after (update_feed_state now next_url last_job_date metadata db) db"
| "apply_cursor_op Clear db = delete_feed_state db"

text \<open>A world for evaluating examples: a few points of the graph of
  \<^verbatim>\<open>datetime.fromisoformat\<close> (every other string is taken as unparsable), \<^verbatim>\<open>repr\<close> as it
  is on a string without quotes, backslashes or control characters, a clock that
  advances by a second for each reading.\<close>

definition sample_dates :: "(string \<times> datetime) list" where
  "sample_dates =
     [(''2024-01-15'', DateTime (2024, 1, 15, 0, 0, 0, 0) None),
      (''2024-03-01'', DateTime (2024, 3, 1, 0, 0, 0, 0) None),
      (''2024-05-20T08:30:00'', DateTime (2024, 5, 20, 8, 30, 0, 0) None),
      (''2024-06-30T12:00:00+02:00'', DateTime (2024, 6, 30, 12, 0, 0, 0) (Some 120))]"

text \<open>A feed of four pages and four entries. Pages p0 and p3 stand alone; p1 points to
  p2, where the chain ends. The entry e3 is listed on p1 and p3 and cannot be fetched.\<close>

definition item_e1 :: json where
  "item_e1 = JObj [(''id'', JStr ''e1''), (''date_modified'', JStr ''2024-01-15'')]"

definition item_e2 :: json where
  "item_e2 = JObj [(''id'', JStr ''e2''), (''date_modified'', JStr ''2024-05-20T08:30:00'')]"

definition item_e3 :: json where
  "item_e3 = JObj [(''id'', JStr ''e3''), (''date_modified'', JStr ''2024-05-20T08:30:00'')]"

definition item_e4 :: json where
  "item_e4 = JObj [(''id'', JStr ''e4''), (''date_modified'', JStr ''2024-05-20T08:30:00'')]"

definition item_e5 :: json where
  "item_e5 = JObj [(''id'', JStr ''e5'')]"

definition page_p0 :: json where
  "page_p0 = JObj [(''id'', JStr ''p0''), (''items'', JArr [item_e1])]"

definition page_p1 :: json where
  "page_p1 =
     JObj [(''id'', JStr ''p1''), (''title'', JStr ''Stillinger''), (''next_id'', JStr ''p2''),
           (''next_url'', JStr ''/api/v1/feed/p2''),
           (''items'', JArr [item_e2, item_e3, item_e4])]"

definition page_p2 :: json where
  "page_p2 = JObj [(''id'', JStr ''p2''), (''items'', JArr [item_e5])]"

definition page_p3 :: json where
  "page_p3 = JObj [(''id'', JStr ''p3''), (''items'', JArr [item_e2, item_e3])]"

definition entry_e1 :: json where
  "entry_e1 =
     JObj [(''uuid'', JStr ''j1''), (''status'', JStr ''ACTIVE''),
           (''ad_content'',
            JObj [(''title'', JStr ''Kokk''), (''published'', JStr ''2024-05-20T08:30:00'')])]"

definition entry_e2 :: json where
  "entry_e2 =
     JObj [(''uuid'', JStr ''j2''), (''status'', JStr ''INACTIVE''),
           (''ad_content'', JObj [(''title'', JStr ''Servitor'')])]"

definition entry_e4 :: json where
  "entry_e4 =
     JObj [(''uuid'', JStr ''j4''), (''status'', JStr ''ACTIVE''),
           (''ad_content'', JObj [(''title'', JStr ''Baker'')])]"

definition entry_e5 :: json where
  "entry_e5 =
     JObj [(''uuid'', JStr ''j5''), (''status'', JStr ''ACTIVE''),
           (''ad_content'', JObj [(''title'', JStr ''Kelner'')])]"

definition sample_feed :: "(string \<times> json) list" where
  "sample_feed =
     [(''/api/v1/feed/p0'', page_p0),
      (''/api/v1/feed/p1'', page_p1),
      (''/api/v1/feed/p2'', page_p2),
      (''/api/v1/feed/p3'', page_p3),
      (''/api/v1/feedentry/e1'', entry_e1),
      (''/api/v1/feedentry/e2'', entry_e2),
      (''/api/v1/feedentry/e4'', entry_e4),
      (''/api/v1/feedentry/e5'', entry_e5)]"

definition sample_http :: "string \<Rightarrow> bool \<Rightarrow> pyerror + json" where
  "sample_http endpoint last_param =
     (case map_of sample_feed endpoint of
        None \<Rightarrow> Inl RequestException
      | Some v \<Rightarrow> Inr v)"

definition sample_world :: world where
  "sample_world =
     \<lparr>http = sample_http,
      fromisoformat = map_of sample_dates,
      repr_str = (\<lambda>s. [CHR 0x27] @ s @ [CHR 0x27]),
      clock = (\<lambda>n. DateTime (2025, 1, 1, 0, 0, n, 0) None),
      as_completed = (\<lambda>items. items)\<rparr>"

text \<open>Sample payloads of \<^verbatim>\<open>/feedentry/{id}\<close>.\<close>

definition job_null_employer :: json where
  "job_null_employer =
     JObj [(''uuid'', JStr ''u1''), (''status'', JStr ''ACTIVE''),
           (''ad_content'', JObj [(''title'', JStr ''Kokk''), (''employer'', JNull)])]"

text \<open>The column of nav\_jobs that takes a date field of \<open>ad_content\<close>.\<close>

definition date_column :: "string \<Rightarrow> string" where
  "date_column k =
     (if k = ''applicationDue'' then ''frist_dato''
      else if k = ''updated'' then ''nav_updated_at''
      else k)"

definition job_snarest :: json where
  "job_snarest =
     with_ad_field [(''uuid'', JStr ''u2''), (''status'', JStr ''ACTIVE'')]
       [(''title'', JStr ''Kokk'')] ''applicationDue'' (JStr ''Snarest'')"

definition job_bad_updated :: json where
  "job_bad_updated =
     with_ad_field
       [(''uuid'', JStr ''u3''), (''sistEndret'', JStr ''2024-01-15''), (''status'', JStr ''ACTIVE'')]
       [(''title'', JStr ''Kokk'')] ''updated'' (JStr ''15.01.2024'')"

text \<open>The database after two calls of \<^verbatim>\<open>save_job\<close> with the same payload, as the caller
  sees it.\<close>

definition save_twice :: "world \<Rightarrow> datetime \<Rightarrow> datetime \<Rightarrow> json \<Rightarrow> database \<Rightarrow> database" where
  "save_twice w now1 now2 job db =
     (let db1 = db_after (save_job w now1 job db) db
      in db_after (save_job w now2 job db1) db1)"

definition job_two_contacts :: json where
  "job_two_contacts =
     JObj [(''uuid'', JStr ''u4''), (''status'', JStr ''ACTIVE''),
           (''ad_content'',
            JObj [(''title'', JStr ''Kokk''),
                  (''workLocations'',
                   JArr [JObj [(''city'', JStr ''Oslo''), (''postalCode'', JStr ''0150'')],
                         JObj [(''city'', JStr ''Oslo''), (''postalCode'', JStr ''0150'')],
                         JObj [(''city'', JStr ''Oslo''), (''postalCode'', JStr ''0151'')]]),
                  (''contactList'',
                   JArr [JObj [(''name'', JStr ''Kari'')], JObj [(''name'', JStr ''Kari'')]])])]"


definition run_from_p1 :: config where
  "run_from_p1 =
     \<lparr>limit = None, reset = False, start_from_beginning = False,
      filter_date = None, start_page_id = Some ''p1''\<rparr>"

definition run_from_p3 :: config where
  "run_from_p3 =
     \<lparr>limit = None, reset = False, start_from_beginning = False,
      filter_date = None, start_page_id = Some ''p3''\<rparr>"



definition empty_db :: database where
  "empty_db = \<lparr>nav_jobs = [], nav_job_locations = [], nav_job_contacts = [],
     nav_job_categories = [], nav_job_occupations = [], nav_feed_state = []\<rparr>"

section \<open>Properties of db\_writer.py\<close>

lemma bindE_Inr_iff: "bindE m f = Inr y \<longleftrightarrow> (\<exists>v. m = Inr v \<and> f v = Inr y)"
  by (cases m) (simp_all add: bindE_def)

lemma bindE_simps [simp]: "bindE (Inl e) f = Inl e" "bindE (Inr v) f = f v"
  by (simp_all add: bindE_def)

lemma get_Inr_iff: "get j k = Inr v \<longleftrightarrow> (\<exists>kvs. j = JObj kvs) \<and> v = field j k"
  by (cases j) (auto simp: get_def field_def)

lemma get_default_Inr_iff:
  "get_default j k d = Inr v \<longleftrightarrow> (\<exists>kvs. j = JObj kvs) \<and> v = field_default j k d"
  by (cases j) auto

subsection \<open>A record without identity\<close>

text \<open>
  C9. A record whose \<open>uuid\<close> is missing or empty (any falsy value: absent, null, the
  empty string) makes \<^verbatim>\<open>save_job\<close> return before its transaction opens: the call returns
  normally with the database it was given, so no table is written. A payload that is not
  a dict at all raises instead, and the caller's database is the same again.
\<close>

theorem save_job_rejects_missing_uuid:
  "\<not> truthy (field job_data ''uuid'') \<Longrightarrow>
     db_after (save_job w now job_data db) db = db \<and>
     (\<forall>kvs. job_data = JObj kvs \<longrightarrow> save_job w now job_data db = Inr db)"
  by (cases job_data) (auto simp: save_job_def db_after_def get_def field_def)

theorem save_job_rejects_missing_uuid_witness:
  "\<not> truthy (field (JObj [(''uuid'', JStr ''''), (''status'', JStr ''ACTIVE'')]) ''uuid'') \<and>
   save_job sample_world (clock sample_world 0)
     (JObj [(''uuid'', JStr ''''), (''status'', JStr ''ACTIVE'')]) empty_db = Inr empty_db"
  using save_job_rejects_missing_uuid
    [of "JObj [(''uuid'', JStr ''''), (''status'', JStr ''ACTIVE'')]" sample_world
        "clock sample_world 0" empty_db]
  by (simp add: field_def)

subsection \<open>The cursor table\<close>

lemma update_feed_state_Inr:
  "update_feed_state now u l m db = Inr db' \<Longrightarrow>
     length (nav_feed_state db') = 1 \<and> get_last_feed_state db' = Some (J u, l)"
  by (auto simp: update_feed_state_def Let_def bindE_Inr_iff delete_feed_state_def
        get_last_feed_state_def row_of_def feed_state_columns_def)

lemma apply_cursor_op_le1:
  "length (nav_feed_state db) \<le> 1 \<Longrightarrow> length (nav_feed_state (apply_cursor_op op db)) \<le> 1"
proof (cases op)
  case (Write now u l m)
  assume le: "length (nav_feed_state db) \<le> 1"
  show ?thesis
  proof (cases "update_feed_state now u l m db")
    case (Inl e)
    with Write le show ?thesis by (simp add: db_after_def)
  next
    case (Inr db')
    with Write update_feed_state_Inr [OF Inr] show ?thesis by (simp add: db_after_def)
  qed
next
  case Clear
  then show ?thesis by (simp add: delete_feed_state_def)
qed

lemma fold_cursor_ops_le1:
  "length (nav_feed_state db) \<le> 1 \<Longrightarrow>
     length (nav_feed_state (fold apply_cursor_op ops db)) \<le> 1"
proof (induction ops arbitrary: db)
  case Nil
  then show ?case by simp
next
  case (Cons op ops)
  from Cons.prems have "length (nav_feed_state (apply_cursor_op op db)) \<le> 1"
    by (rule apply_cursor_op_le1)
  then show ?case using Cons.IH by simp
qed

text \<open>
  C6. Starting from a cursor table with at most one row, every sequence of cursor writes
  and resets leaves at most one row; and a write that returns leaves exactly one row,
  the new one, whatever the table held before (the DELETE and the INSERT are one
  transaction, one step of the model, so the table between them is no state of it).
\<close>

theorem cursor_at_most_one_row:
  "length (nav_feed_state db) \<le> 1 \<Longrightarrow>
     length (nav_feed_state (fold apply_cursor_op ops db)) \<le> 1 \<and>
     (update_feed_state now next_url last_job_date metadata (fold apply_cursor_op ops db)
        = Inr db'
      \<longrightarrow> length (nav_feed_state db') = 1 \<and>
          get_last_feed_state db' = Some (J next_url, last_job_date))"
  using fold_cursor_ops_le1 update_feed_state_Inr by blast

theorem cursor_at_most_one_row_witness:
  "length (nav_feed_state empty_db) \<le> 1 \<and>
   length (nav_feed_state (fold apply_cursor_op
          [Write (clock sample_world 0) (JStr ''/api/v1/feed/p1'') (J JNull) JNull, Clear,
           Write (clock sample_world 1) (JStr ''/api/v1/feed/p2'') (J JNull)
             (JObj [(''title'', JStr ''feed'')])] empty_db)) \<le> 1 \<and>
   update_feed_state (clock sample_world 2) (JStr ''/api/v1/feed/p3'') (J JNull) JNull
     (fold apply_cursor_op
          [Write (clock sample_world 0) (JStr ''/api/v1/feed/p1'') (J JNull) JNull, Clear,
           Write (clock sample_world 1) (JStr ''/api/v1/feed/p2'') (J JNull)
             (JObj [(''title'', JStr ''feed'')])] empty_db)
     = Inr (empty_db\<lparr>nav_feed_state :=
               [row_of feed_state_columns
                  [(''next_url'', J (JStr ''/api/v1/feed/p3'')),
                   (''last_job_date'', J JNull),
                   (''updated_at'', T (clock sample_world 2)),
                   (''title'', J JNull),
                   (''home_page_url'', J JNull),
                   (''feed_url'', J JNull),
                   (''description'', J JNull)]]\<rparr>) \<and>
   get_last_feed_state (empty_db\<lparr>nav_feed_state :=
               [row_of feed_state_columns
                  [(''next_url'', J (JStr ''/api/v1/feed/p3'')),
                   (''last_job_date'', J JNull),
                   (''updated_at'', T (clock sample_world 2)),
                   (''title'', J JNull),
                   (''home_page_url'', J JNull),
                   (''feed_url'', J JNull),
                   (''description'', J JNull)]]\<rparr>) = Some (J (JStr ''/api/v1/feed/p3''), J JNull)"
proof -
  let ?ops = "[Write (clock sample_world 0) (JStr ''/api/v1/feed/p1'') (J JNull) JNull, Clear,
           Write (clock sample_world 1) (JStr ''/api/v1/feed/p2'') (J JNull)
             (JObj [(''title'', JStr ''feed'')])]"
  let ?db' = "empty_db\<lparr>nav_feed_state :=
               [row_of feed_state_columns
                  [(''next_url'', J (JStr ''/api/v1/feed/p3'')),
                   (''last_job_date'', J JNull),
                   (''updated_at'', T (clock sample_world 2)),
                   (''title'', J JNull),
                   (''home_page_url'', J JNull),
                   (''feed_url'', J JNull),
                   (''description'', J JNull)]]\<rparr>"
  have h: "length (nav_feed_state empty_db) \<le> 1" by (simp add: empty_db_def)
  have u: "update_feed_state (clock sample_world 2) (JStr ''/api/v1/feed/p3'') (J JNull) JNull
     (fold apply_cursor_op ?ops empty_db) = Inr ?db'"
    by (simp add: update_feed_state_def delete_feed_state_def get_def field_def empty_db_def
          db_after_def Let_def)
  from cursor_at_most_one_row [OF h, of ?ops "clock sample_world 2" "JStr ''/api/v1/feed/p3''"
      "J JNull" JNull ?db'] h u
  show ?thesis by simp
qed

subsection \<open>What a call of save\_job stores\<close>

lemma upsert_find:
  "\<exists>r. find (\<lambda>r. r ''nav_uuid'' = new ''nav_uuid'') (upsert new rs) = Some r \<and>
       (\<forall>c \<in> set update_columns. r c = new c)"
  by (induction rs) (auto simp: do_update_def update_columns_def)

lemma nav_job_params_nav_uuid:
  "nav_job_params w now job = Inr params \<Longrightarrow>
     row_of insert_columns params ''nav_uuid'' = J (field job ''uuid'')"
  by (auto simp: nav_job_params_def bindE_Inr_iff get_Inr_iff Let_def row_of_def
        insert_columns_def)

lemma bindE_assoc: "bindE (bindE m f) g = bindE m (\<lambda>x. bindE (f x) g)"
  by (cases m) simp_all

lemma insert_locations_eq:
  "insert_locations u v db =
     bindE (locations_data u v) (\<lambda>data. Inr (db\<lparr>nav_job_locations := nav_job_locations db @ data\<rparr>))"
  unfolding insert_locations_def by (cases "locations_data u v") simp_all

lemma insert_contacts_eq:
  "insert_contacts u v db =
     bindE (contacts_data u v) (\<lambda>data. Inr (db\<lparr>nav_job_contacts := nav_job_contacts db @ data\<rparr>))"
  unfolding insert_contacts_def by (cases "contacts_data u v") simp_all

lemma insert_categories_eq:
  "insert_categories u v db =
     bindE (categories_data u v) (\<lambda>data. Inr (db\<lparr>nav_job_categories := nav_job_categories db @ data\<rparr>))"
  unfolding insert_categories_def by (cases "categories_data u v") simp_all

lemma insert_occupations_eq:
  "insert_occupations u v db =
     bindE (occupations_data u v) (\<lambda>data. Inr (db\<lparr>nav_job_occupations := nav_job_occupations db @ data\<rparr>))"
  unfolding insert_occupations_def by (cases "occupations_data u v") simp_all

lemma save_job_eq:
  assumes "truthy (field job ''uuid'')"
  shows "save_job w now job db =
     bindE (nav_job_params w now job) (\<lambda>params.
     bindE (get_default (ad_content_of job) ''workLocations'' (JArr [])) (\<lambda>wl.
     bindE (locations_data (field job ''uuid'') wl) (\<lambda>ld.
     bindE (contacts_data (field job ''uuid'') (field_default (ad_content_of job) ''contactList'' (JArr []))) (\<lambda>cd.
     bindE (categories_data (field job ''uuid'') (field_default (ad_content_of job) ''categoryList'' (JArr []))) (\<lambda>gd.
     bindE (occupations_data (field job ''uuid'') (field_default (ad_content_of job) ''occupationCategories'' (JArr []))) (\<lambda>od.
       Inr (saved (field job ''uuid'') (row_of insert_columns params) ld cd gd od db)))))))"
proof (cases job)
  case (JObj kvs)
  have g: "get job ''uuid'' = Inr (field job ''uuid'')"
    using JObj by (simp add: get_Inr_iff)
  have a: "get_default job ''ad_content'' (JObj []) = Inr (ad_content_of job)"
    using JObj by (simp add: get_default_Inr_iff ad_content_of_def)
  show ?thesis
    unfolding save_job_def g a upsert_nav_job_def insert_locations_eq insert_contacts_eq
      insert_categories_eq insert_occupations_eq Let_def saved_def
    using assms
    by (simp add: bindE_assoc)
next
qed (use assms in \<open>simp_all add: field_def\<close>)

lemma job_row_saved:
  "r ''nav_uuid'' = J u \<Longrightarrow>
     \<exists>r'. job_row (saved u r ld cd gd od db) u = Some r' \<and>
          (\<forall>c \<in> set update_columns. r' c = r c)"
  using upsert_find [of r "nav_jobs db"] by (auto simp: job_row_def saved_def)

lemma save_job_Inr:
  assumes "save_job w now job db = Inr db'" and "truthy (field job ''uuid'')"
  obtains params ld cd gd od where
    "nav_job_params w now job = Inr params"
    "\<exists>kvs. ad_content_of job = JObj kvs"
    "locations_data (field job ''uuid'') (field_default (ad_content_of job) ''workLocations'' (JArr [])) = Inr ld"
    "contacts_data (field job ''uuid'') (field_default (ad_content_of job) ''contactList'' (JArr [])) = Inr cd"
    "categories_data (field job ''uuid'') (field_default (ad_content_of job) ''categoryList'' (JArr [])) = Inr gd"
    "occupations_data (field job ''uuid'') (field_default (ad_content_of job) ''occupationCategories'' (JArr [])) = Inr od"
    "db' = saved (field job ''uuid'') (row_of insert_columns params) ld cd gd od db"
  using assms(1) unfolding save_job_eq [OF assms(2)]
  by (auto simp: bindE_Inr_iff get_default_Inr_iff)

lemma save_job_stored:
  assumes "save_job w now job db = Inr db'" and "truthy (field job ''uuid'')"
    and "c \<in> set update_columns"
  shows "\<exists>params. nav_job_params w now job = Inr params \<and>
           stored db' (field job ''uuid'') c = Some (row_of insert_columns params c)"
proof -
  from assms(1,2) obtain params ld cd gd od where
    p: "nav_job_params w now job = Inr params" and
    d: "db' = saved (field job ''uuid'') (row_of insert_columns params) ld cd gd od db"
    by (rule save_job_Inr)
  have "row_of insert_columns params ''nav_uuid'' = J (field job ''uuid'')"
    using p by (rule nav_job_params_nav_uuid)
  then have "\<exists>r'. job_row db' (field job ''uuid'') = Some r' \<and>
          (\<forall>c \<in> set update_columns. r' c = row_of insert_columns params c)"
    unfolding d by (rule job_row_saved)
  with assms(3) p show ?thesis by (auto simp: stored_def)
qed

subsection \<open>The employer\<close>

lemma nav_job_params_employer:
  assumes "nav_job_params w now job = Inr params"
  shows "row_of insert_columns params ''company'' =
           J (employer_name_of w (field_default (ad_of job) ''employer'' (JObj [])))"
    and "row_of insert_columns params ''employer_orgnr'' =
           J (employer_attr (field_default (ad_of job) ''employer'' (JObj [])) ''orgnr'')"
    and "row_of insert_columns params ''employer_description'' =
           J (employer_attr (field_default (ad_of job) ''employer'' (JObj [])) ''description'')"
    and "row_of insert_columns params ''employer_homepage'' =
           J (employer_attr (field_default (ad_of job) ''employer'' (JObj [])) ''homepage'')"
  using assms
  by (auto simp: nav_job_params_def bindE_Inr_iff get_Inr_iff get_default_Inr_iff Let_def
        row_of_def insert_columns_def)

text \<open>
  C10. When the employer of a saved record is present and is not a dict (null, a number, a
  string, a list), the stored company is the text \<^verbatim>\<open>str(employer)\<close>, so the text "None"
  for null, and orgnr, description and homepage are stored as NULL.
\<close>

theorem employer_not_a_dict:
  assumes "save_job w now job_data db = Inr db'"
    and "truthy (field job_data ''uuid'')"
    and "field job_data ''ad_content'' = JObj ad"
    and "map_of ad ''employer'' = Some employer"
    and "\<not> is_dict employer"
  shows "stored db' (field job_data ''uuid'') ''company'' = Some (J (JStr (py_str w employer))) \<and>
         stored db' (field job_data ''uuid'') ''employer_orgnr'' = Some (J JNull) \<and>
         stored db' (field job_data ''uuid'') ''employer_description'' = Some (J JNull) \<and>
         stored db' (field job_data ''uuid'') ''employer_homepage'' = Some (J JNull) \<and>
         (employer = JNull \<longrightarrow>
            stored db' (field job_data ''uuid'') ''company'' = Some (J (JStr ''None'')))"
proof -
  have ad: "ad_of job_data = JObj ad"
    using assms(3,4) by (auto simp: ad_of_def)
  have e: "field_default (ad_of job_data) ''employer'' (JObj []) = employer"
    using assms(4) by (simp add: ad)
  have n: "employer_name_of w employer = JStr (py_str w employer)"
    and a: "\<And>k. employer_attr employer k = JNull"
    using assms(5) by (simp_all add: employer_name_of_def employer_attr_def)
  have c: "stored db' (field job_data ''uuid'') ''company'' = Some (J (JStr (py_str w employer)))"
    using save_job_stored [OF assms(1,2), of "''company''"] nav_job_params_employer(1) [of w now job_data]
    by (auto simp: update_columns_def e n)
  have o: "stored db' (field job_data ''uuid'') ''employer_orgnr'' = Some (J JNull)"
    using save_job_stored [OF assms(1,2), of "''employer_orgnr''"] nav_job_params_employer(2) [of w now job_data]
    by (auto simp: update_columns_def e a)
  have d: "stored db' (field job_data ''uuid'') ''employer_description'' = Some (J JNull)"
    using save_job_stored [OF assms(1,2), of "''employer_description''"] nav_job_params_employer(3) [of w now job_data]
    by (auto simp: update_columns_def e a)
  have h: "stored db' (field job_data ''uuid'') ''employer_homepage'' = Some (J JNull)"
    using save_job_stored [OF assms(1,2), of "''employer_homepage''"] nav_job_params_employer(4) [of w now job_data]
    by (auto simp: update_columns_def e a)
  from c o d h show ?thesis by auto
qed

subsection \<open>Evaluating the samples\<close>

lemma save_job_returns:
  "save_job w now job db = Inr db' \<Longrightarrow>
     save_job w now job db = Inr (db_after (save_job w now job db) db)"
  by (simp add: db_after_def)

lemma sample_fromisoformat [simp]: "fromisoformat sample_world = map_of sample_dates"
  by (simp add: sample_world_def)

lemmas data_defs = locations_data_def contacts_data_def categories_data_def
  occupations_data_def

lemmas params_defs = nav_job_params_def ad_of_def ad_content_of_def get_def field_def
  first_location_def nav_updated_at_of_def parse_dt_def frist_dato_of_def
  employer_name_of_def employer_attr_def

lemma job_null_employer_saves:
  "\<exists>db'. save_job sample_world now job_null_employer db = Inr db'"
  unfolding job_null_employer_def
  by (simp add: save_job_eq params_defs data_defs Let_def)

theorem employer_not_a_dict_witness:
  "save_job sample_world (clock sample_world 0) job_null_employer empty_db =
     Inr (db_after (save_job sample_world (clock sample_world 0) job_null_employer empty_db) empty_db) \<and>
   truthy (field job_null_employer ''uuid'') \<and>
   field job_null_employer ''ad_content'' = JObj [(''title'', JStr ''Kokk''), (''employer'', JNull)] \<and>
   map_of [(''title'', JStr ''Kokk''), (''employer'', JNull)] ''employer'' = Some JNull \<and>
   \<not> is_dict JNull \<and>
   stored (db_after (save_job sample_world (clock sample_world 0) job_null_employer empty_db) empty_db)
     (JStr ''u1'') ''company'' = Some (J (JStr ''None''))"
proof -
  let ?r = "save_job sample_world (clock sample_world 0) job_null_employer empty_db"
  obtain db' where "?r = Inr db'" using job_null_employer_saves by blast
  then have s: "?r = Inr (db_after ?r empty_db)" by (rule save_job_returns)
  have u: "truthy (field job_null_employer ''uuid'')"
    and f: "field job_null_employer ''uuid'' = JStr ''u1''"
    and a: "field job_null_employer ''ad_content'' = JObj [(''title'', JStr ''Kokk''), (''employer'', JNull)]"
    by (simp_all add: job_null_employer_def field_def)
  have m: "map_of [(''title'', JStr ''Kokk''), (''employer'', JNull)] ''employer'' = Some JNull"
    by simp
  have d: "\<not> is_dict JNull" by simp
  from employer_not_a_dict [OF s u a m d] s u a m d f show ?thesis by simp
qed

subsection \<open>Date fields\<close>

lemma ad_of_with_ad_field [simp]: "ad_of (with_ad_field rest ad k v) = JObj ((k, v) # ad)"
  by (simp add: ad_of_def with_ad_field_def field_def)

lemma field_with_ad_field [simp]:
  "x \<noteq> ''ad_content'' \<Longrightarrow> field (with_ad_field rest ad k v) x = field (JObj rest) x"
  by (simp add: with_ad_field_def field_def)

lemma get_with_ad_field [simp]:
  "get (with_ad_field rest ad k v) x = Inr (field (with_ad_field rest ad k v) x)"
  by (simp add: with_ad_field_def field_def get_def)

lemma field_default_other:
  "x \<noteq> k \<Longrightarrow> field_default (JObj ((k, v) # ad)) x d = field_default (JObj ad) x d"
  by simp

lemma field_other:
  "x \<noteq> k \<Longrightarrow> field (JObj ((k, v) # ad)) x = field (JObj ad) x"
  by (simp add: field_def)

lemma field_same: "field (JObj ((k, v) # ad)) k = v"
  by (simp add: field_def)

lemma get_default_cons:
  "get_default (JObj ((k, v) # ad)) x d = Inr (field_default (JObj ((k, v) # ad)) x d)"
  by simp

lemma parse_dt_unparsable: "fromisoformat w s = None \<Longrightarrow> parse_dt w (JStr s) = parse_dt w JNull"
  by (simp add: parse_dt_def)

lemma nav_job_params_unparsable:
  assumes "fromisoformat w s = None"
    and "k \<in> {''published'', ''updated'', ''expires'', ''applicationDue''}"
  shows "nav_job_params w now (with_ad_field rest ad k (JStr s)) =
         nav_job_params w now (with_ad_field rest ad k JNull)"
  using assms(2)
proof (elim insertE emptyE)
  assume k: "k = ''published''"
  show ?thesis unfolding nav_job_params_def Let_def ad_of_with_ad_field get_with_ad_field bindE_simps get_default_cons nav_updated_at_of_def frist_dato_of_def k
    by (simp add: field_other field_same field_default_other parse_dt_unparsable [OF assms(1)] del: field_default.simps)
next
  assume k: "k = ''updated''"
  show ?thesis unfolding nav_job_params_def Let_def ad_of_with_ad_field get_with_ad_field bindE_simps get_default_cons nav_updated_at_of_def frist_dato_of_def k
    by (simp add: field_other field_same field_default_other parse_dt_unparsable [OF assms(1)] del: field_default.simps)
next
  assume k: "k = ''expires''"
  show ?thesis unfolding nav_job_params_def Let_def ad_of_with_ad_field get_with_ad_field bindE_simps get_default_cons nav_updated_at_of_def frist_dato_of_def k
    by (simp add: field_other field_same field_default_other parse_dt_unparsable [OF assms(1)] del: field_default.simps)
next
  assume k: "k = ''applicationDue''"
  show ?thesis unfolding nav_job_params_def Let_def ad_of_with_ad_field get_with_ad_field bindE_simps get_default_cons nav_updated_at_of_def frist_dato_of_def k
    using assms(1)
    by (simp add: field_other field_same field_default_other del: field_default.simps)
qed


lemma nav_job_params_dates:
  assumes "nav_job_params w now job = Inr params"
  shows "nav_updated_at_of w job (ad_of job) = Inr (row_of insert_columns params ''nav_updated_at'')"
    and "parse_dt w (field (ad_of job) ''expires'') = Inr (row_of insert_columns params ''expires'')"
    and "parse_dt w (field (ad_of job) ''published'') = Inr (row_of insert_columns params ''published'')"
    and "row_of insert_columns params ''frist_dato'' = frist_dato_of w (ad_of job)"
  using assms
  by (auto simp: nav_job_params_def bindE_Inr_iff get_Inr_iff get_default_Inr_iff Let_def
        row_of_def insert_columns_def)

lemma save_job_unparsable:
  assumes "fromisoformat w s = None"
    and "k \<in> {''published'', ''updated'', ''expires'', ''applicationDue''}"
  shows "save_job w now (with_ad_field rest ad k (JStr s)) db =
         save_job w now (with_ad_field rest ad k JNull) db"
proof -
  have c: "\<And>x d v. x \<in> {''workLocations'', ''contactList'', ''categoryList'', ''occupationCategories''} \<Longrightarrow>
      field_default (JObj ((k, v) # ad)) x d = field_default (JObj ad) x d"
    using assms(2) by auto
  have a: "\<And>v. get_default (with_ad_field rest ad k v) ''ad_content'' (JObj []) = Inr (JObj ((k, v) # ad))"
    by (simp add: with_ad_field_def)
  show ?thesis
    unfolding save_job_def upsert_nav_job_def nav_job_params_unparsable [OF assms] get_with_ad_field
      a bindE_simps get_default_cons Let_def
    by (simp add: c del: field_default.simps)
qed

lemma stored_dates:
  assumes "save_job w now job db = Inr db'" and "truthy (field job ''uuid'')"
  shows "stored db' (field job ''uuid'') ''frist_dato'' = Some (frist_dato_of w (ad_of job))"
    and "\<exists>c. parse_dt w (field (ad_of job) ''published'') = Inr c \<and>
             stored db' (field job ''uuid'') ''published'' = Some c"
    and "\<exists>c. parse_dt w (field (ad_of job) ''expires'') = Inr c \<and>
             stored db' (field job ''uuid'') ''expires'' = Some c"
    and "\<exists>c. nav_updated_at_of w job (ad_of job) = Inr c \<and>
             stored db' (field job ''uuid'') ''nav_updated_at'' = Some c"
proof -
  have 1: "''published'' \<in> set update_columns" "''expires'' \<in> set update_columns"
    "''frist_dato'' \<in> set update_columns" "''nav_updated_at'' \<in> set update_columns"
    by (simp_all add: update_columns_def)
  from save_job_stored [OF assms 1(3)] nav_job_params_dates(4)
  show "stored db' (field job ''uuid'') ''frist_dato'' = Some (frist_dato_of w (ad_of job))"
    by fastforce
  from save_job_stored [OF assms 1(1)] nav_job_params_dates(3)
  show "\<exists>c. parse_dt w (field (ad_of job) ''published'') = Inr c \<and>
             stored db' (field job ''uuid'') ''published'' = Some c"
    by fastforce
  from save_job_stored [OF assms 1(2)] nav_job_params_dates(2)
  show "\<exists>c. parse_dt w (field (ad_of job) ''expires'') = Inr c \<and>
             stored db' (field job ''uuid'') ''expires'' = Some c"
    by fastforce
  from save_job_stored [OF assms 1(4)] nav_job_params_dates(1)
  show "\<exists>c. nav_updated_at_of w job (ad_of job) = Inr c \<and>
             stored db' (field job ''uuid'') ''nav_updated_at'' = Some c"
    by fastforce
qed

lemma parse_dt_unparsable_null:
  "fromisoformat w s = None \<Longrightarrow> parse_dt w (JStr s) = Inr (J JNull)"
  by (simp add: parse_dt_def)

lemma parse_dt_J: "parse_dt w v = Inr (J x) \<Longrightarrow> x = JNull"
  by (cases v) (auto simp: parse_dt_def split: if_splits option.splits)

lemma nav_updated_at_of_unparsable:
  assumes "fromisoformat w s = None" and "field ad ''updated'' = JStr s"
    and "nav_updated_at_of w job ad = Inr c"
  shows "parse_dt w (field job ''sistEndret'') = Inr c"
proof (cases "parse_dt w (field job ''sistEndret'')")
  case (Inl e)
  with assms(3) show ?thesis by (simp add: nav_updated_at_of_def)
next
  case (Inr a)
  show ?thesis
  proof (cases a)
    case (T d)
    with Inr assms(3) show ?thesis by (simp add: nav_updated_at_of_def)
  next
    case (J x)
    with Inr have "x = JNull" by (auto dest: parse_dt_J)
    moreover from J Inr assms have "c = J JNull"
      by (simp add: nav_updated_at_of_def parse_dt_unparsable_null)
    ultimately show ?thesis using Inr J by simp
  qed
qed

text \<open>
  C8, as the code has it. A date field of \<open>ad_content\<close> (published, updated, expires,
  applicationDue) that holds a string \<^verbatim>\<open>fromisoformat\<close> rejects is treated exactly as a
  null field: \<^verbatim>\<open>save_job\<close> returns or raises as it does for the same payload with the field
  null, so the string never makes the record fail. When the call returns, the stored
  published, expires and frist\_dato are NULL. For updated the stored nav\_updated\_at is
  what the root field sistEndret alone gives: its timestamp when it parses, NULL when it is
  absent or unparsable.
\<close>

theorem unparsable_date_as_null:
  assumes "fromisoformat w s = None"
    and "k \<in> {''published'', ''updated'', ''expires'', ''applicationDue''}"
    and "job = with_ad_field rest ad k (JStr s)"
  shows "save_job w now job db = save_job w now (with_ad_field rest ad k JNull) db \<and>
         (save_job w now job db = Inr db' \<and> truthy (field job ''uuid'') \<longrightarrow>
            (k \<noteq> ''updated'' \<longrightarrow>
               stored db' (field job ''uuid'') (date_column k) = Some (J JNull)) \<and>
            (k = ''updated'' \<longrightarrow>
               (\<exists>c. parse_dt w (field job ''sistEndret'') = Inr c \<and>
                    stored db' (field job ''uuid'') ''nav_updated_at'' = Some c)))"
proof (intro conjI impI; (elim conjE)?)
  show "save_job w now job db = save_job w now (with_ad_field rest ad k JNull) db"
    unfolding assms(3) using assms(1,2) by (rule save_job_unparsable)
next
  assume s: "save_job w now job db = Inr db'" and u: "truthy (field job ''uuid'')"
    and k: "k \<noteq> ''updated''"
  have f: "field (ad_of job) k = JStr s"
    by (simp add: assms(3) field_same)
  from assms(2) k consider "k = ''published''" | "k = ''expires''" | "k = ''applicationDue''"
    by auto
  then show "stored db' (field job ''uuid'') (date_column k) = Some (J JNull)"
  proof cases
    case 1
    with stored_dates(2) [OF s u] f parse_dt_unparsable_null [OF assms(1)] show ?thesis
      by (auto simp: date_column_def)
  next
    case 2
    with stored_dates(3) [OF s u] f parse_dt_unparsable_null [OF assms(1)] show ?thesis
      by (auto simp: date_column_def)
  next
    case 3
    with stored_dates(1) [OF s u] f assms(1) show ?thesis
      by (auto simp: date_column_def frist_dato_of_def)
  qed
next
  assume s: "save_job w now job db = Inr db'" and u: "truthy (field job ''uuid'')"
    and k: "k = ''updated''"
  have f: "field (ad_of job) ''updated'' = JStr s"
    by (simp add: assms(3) k field_same)
  from stored_dates(4) [OF s u] obtain c where
    c: "nav_updated_at_of w job (ad_of job) = Inr c"
       "stored db' (field job ''uuid'') ''nav_updated_at'' = Some c"
    by blast
  from nav_updated_at_of_unparsable [OF assms(1) f c(1)] c(2)
  show "\<exists>c. parse_dt w (field job ''sistEndret'') = Inr c \<and>
            stored db' (field job ''uuid'') ''nav_updated_at'' = Some c"
    by blast
qed

lemma with_ad_field_saves:
  "truthy (field (JObj rest) ''uuid'') \<Longrightarrow>
   nav_job_params w now (with_ad_field rest ad k v) = Inr p \<Longrightarrow>
   k \<in> {''published'', ''updated'', ''expires'', ''applicationDue''} \<Longrightarrow>
   field_default (JObj ad) ''workLocations'' (JArr []) = JArr [] \<Longrightarrow>
   field_default (JObj ad) ''contactList'' (JArr []) = JArr [] \<Longrightarrow>
   field_default (JObj ad) ''categoryList'' (JArr []) = JArr [] \<Longrightarrow>
   field_default (JObj ad) ''occupationCategories'' (JArr []) = JArr [] \<Longrightarrow>
   \<exists>db'. save_job w now (with_ad_field rest ad k v) db = Inr db'"
  by (auto simp: save_job_eq ad_content_of_def with_ad_field_def data_defs field_def)

lemma job_snarest_saves: "\<exists>db'. save_job sample_world now job_snarest db = Inr db'"
  unfolding job_snarest_def
  by (rule with_ad_field_saves)
     (simp_all add: params_defs with_ad_field_def Let_def)

lemma job_bad_updated_saves: "\<exists>db'. save_job sample_world now job_bad_updated db = Inr db'"
  unfolding job_bad_updated_def
  by (rule with_ad_field_saves)
     (simp_all add: params_defs with_ad_field_def Let_def sample_dates_def)

text \<open>
  C8 as stated fails for updated: with a sistEndret that parses, the column that takes
  \<open>updated\<close> is not NULL although \<open>updated\<close> is unparsable.
\<close>

theorem unparsable_updated_counterexample:
  "fromisoformat sample_world ''15.01.2024'' = None \<and>
   field (ad_of job_bad_updated) ''updated'' = JStr ''15.01.2024'' \<and>
   save_job sample_world (clock sample_world 0) job_bad_updated empty_db =
     Inr (db_after (save_job sample_world (clock sample_world 0) job_bad_updated empty_db) empty_db) \<and>
   stored (db_after (save_job sample_world (clock sample_world 0) job_bad_updated empty_db) empty_db)
     (JStr ''u3'') ''nav_updated_at'' = Some (T (DateTime (2024, 1, 15, 0, 0, 0, 0) None))"
proof -
  let ?r = "save_job sample_world (clock sample_world 0) job_bad_updated empty_db"
  obtain db' where "?r = Inr db'" using job_bad_updated_saves by blast
  then have s: "?r = Inr (db_after ?r empty_db)" by (rule save_job_returns)
  have u: "truthy (field job_bad_updated ''uuid'')"
    and f: "field job_bad_updated ''uuid'' = JStr ''u3''"
    by (simp_all add: job_bad_updated_def with_ad_field_def field_def)
  have n: "nav_updated_at_of sample_world job_bad_updated (ad_of job_bad_updated) =
             Inr (T (DateTime (2024, 1, 15, 0, 0, 0, 0) None))"
    by (simp add: job_bad_updated_def with_ad_field_def ad_of_def nav_updated_at_of_def
          parse_dt_def sample_dates_def field_def)
  have p: "fromisoformat sample_world ''15.01.2024'' = None"
    by (simp add: sample_dates_def)
  have a: "field (ad_of job_bad_updated) ''updated'' = JStr ''15.01.2024''"
    by (simp add: job_bad_updated_def with_ad_field_def ad_of_def field_def)
  from stored_dates(4) [OF s u] n f s p a show ?thesis by auto
qed


theorem unparsable_date_as_null_witness:
  "fromisoformat sample_world ''Snarest'' = None \<and>
   ''applicationDue'' \<in> {''published'', ''updated'', ''expires'', ''applicationDue''} \<and>
   save_job sample_world (clock sample_world 0) job_snarest empty_db =
     Inr (db_after (save_job sample_world (clock sample_world 0) job_snarest empty_db) empty_db) \<and>
   truthy (field job_snarest ''uuid'') \<and>
   stored (db_after (save_job sample_world (clock sample_world 0) job_snarest empty_db) empty_db)
     (JStr ''u2'') ''frist_dato'' = Some (J JNull) \<and>
   fromisoformat sample_world ''15.01.2024'' = None \<and>
   ''updated'' \<in> {''published'', ''updated'', ''expires'', ''applicationDue''} \<and>
   save_job sample_world (clock sample_world 0) job_bad_updated empty_db =
     Inr (db_after (save_job sample_world (clock sample_world 0) job_bad_updated empty_db) empty_db) \<and>
   truthy (field job_bad_updated ''uuid'') \<and>
   parse_dt sample_world (field job_bad_updated ''sistEndret'') =
     Inr (T (DateTime (2024, 1, 15, 0, 0, 0, 0) None)) \<and>
   stored (db_after (save_job sample_world (clock sample_world 0) job_bad_updated empty_db) empty_db)
     (JStr ''u3'') ''nav_updated_at'' = Some (T (DateTime (2024, 1, 15, 0, 0, 0, 0) None))"
proof -
  let ?r = "save_job sample_world (clock sample_world 0) job_snarest empty_db"
  let ?q = "save_job sample_world (clock sample_world 0) job_bad_updated empty_db"
  obtain db' where "?r = Inr db'" using job_snarest_saves by blast
  then have s: "?r = Inr (db_after ?r empty_db)" by (rule save_job_returns)
  obtain db'' where "?q = Inr db''" using job_bad_updated_saves by blast
  then have s': "?q = Inr (db_after ?q empty_db)" by (rule save_job_returns)
  have p: "fromisoformat sample_world ''Snarest'' = None"
    and p': "fromisoformat sample_world ''15.01.2024'' = None"
    by (simp_all add: sample_dates_def)
  have k: "''applicationDue'' \<in> {''published'', ''updated'', ''expires'', ''applicationDue''}"
    and k': "''updated'' \<in> {''published'', ''updated'', ''expires'', ''applicationDue''}"
    by simp_all
  have u: "truthy (field job_snarest ''uuid'')"
    and f: "field job_snarest ''uuid'' = JStr ''u2''"
    and u': "truthy (field job_bad_updated ''uuid'')"
    and f': "field job_bad_updated ''uuid'' = JStr ''u3''"
    by (simp_all add: job_snarest_def job_bad_updated_def with_ad_field_def field_def)
  have e: "parse_dt sample_world (field job_bad_updated ''sistEndret'') =
     Inr (T (DateTime (2024, 1, 15, 0, 0, 0, 0) None))"
    by (simp add: job_bad_updated_def with_ad_field_def field_def parse_dt_def sample_dates_def)
  note t = unparsable_date_as_null [OF p k job_snarest_def, THEN conjunct2, rule_format,
      OF conjI, OF s u]
  from t [THEN conjunct1] f
  have 1: "stored (db_after ?r empty_db) (JStr ''u2'') ''frist_dato'' = Some (J JNull)"
    by (simp add: date_column_def)
  note t' = unparsable_date_as_null [OF p' k' job_bad_updated_def, THEN conjunct2, rule_format,
      OF conjI, OF s' u']
  from t' [THEN conjunct2] f' e
  have 2: "stored (db_after ?q empty_db) (JStr ''u3'') ''nav_updated_at'' =
      Some (T (DateTime (2024, 1, 15, 0, 0, 0, 0) None))"
    by auto
  from p k s u 1 p' k' s' u' e 2 show ?thesis by blast
qed

subsection \<open>Child collections\<close>

lemma collect_rows_kept:
  "collect_rows ks mk xs seen = Inr data \<Longrightarrow>
     \<exists>kept. data = map mk kept \<and> subseq kept xs \<and>
       distinct (map (entry_key ks) kept) \<and>
       set (map (entry_key ks) kept) = set (map (entry_key ks) xs) - set seen \<and>
       (\<forall>x \<in> set xs. is_dict x)"
proof (induction xs arbitrary: seen data)
  case Nil
  then show ?case by simp
next
  case (Cons x xs)
  from Cons.prems obtain kvs where x: "x = JObj kvs"
    by (cases x) simp_all
  have k: "map hkey (map (field x) ks) = entry_key ks x"
    by (simp add: entry_key_def)
  show ?case
  proof (cases "entry_key ks x \<in> set seen")
    case True
    with Cons.prems x k have "collect_rows ks mk xs seen = Inr data"
      by (simp add: Let_def split: if_splits)
    from Cons.IH [OF this] obtain kept where
      "data = map mk kept" "subseq kept xs" "distinct (map (entry_key ks) kept)"
      "set (map (entry_key ks) kept) = set (map (entry_key ks) xs) - set seen"
      "\<forall>x \<in> set xs. is_dict x" by blast
    with True x show ?thesis
      by (intro exI [of _ kept]) auto
  next
    case False
    with Cons.prems x k obtain data' where
      d: "collect_rows ks mk xs (entry_key ks x # seen) = Inr data'" "data = mk x # data'"
      by (auto simp: Let_def split: if_splits sum.splits)
    from Cons.IH [OF d(1)] obtain kept where
      "data' = map mk kept" "subseq kept xs" "distinct (map (entry_key ks) kept)"
      "set (map (entry_key ks) kept) = set (map (entry_key ks) xs) - set (entry_key ks x # seen)"
      "\<forall>x \<in> set xs. is_dict x" by blast
    with False x d(2) show ?thesis
      by (intro exI [of _ "x # kept"]) auto
  qed
qed

lemma contact_rows_map:
  "contact_rows u cs = Inr data \<Longrightarrow> data = map (contact_row u) cs \<and> (\<forall>x \<in> set cs. is_dict x)"
proof (induction cs arbitrary: data)
  case Nil
  then show ?case by simp
next
  case (Cons c cs)
  then show ?case
    by (cases c) (auto split: sum.splits)
qed

lemma py_iter_dicts:
  "py_iter v = Inr xs \<Longrightarrow> \<forall>x \<in> set xs. is_dict x \<Longrightarrow> truthy v \<Longrightarrow> entries v = xs"
proof (cases v)
  case (JStr s)
  assume "py_iter v = Inr xs" "\<forall>x \<in> set xs. is_dict x" "truthy v"
  with JStr show ?thesis by (cases s) auto
next
  case (JObj kvs)
  assume "py_iter v = Inr xs" "\<forall>x \<in> set xs. is_dict x" "truthy v"
  with JObj show ?thesis by (cases kvs) auto
qed auto

lemma entries_falsy: "\<not> truthy v \<Longrightarrow> entries v = []"
  by (cases v) auto

lemma entries_field_default: "entries (field_default j k (JArr [])) = entries (field j k)"
  by (cases j) (auto simp: field_def split: option.splits)

lemma deduplicated_data:
  assumes "(if \<not> truthy v then Inr [] else bindE (py_iter v) (\<lambda>xs. collect_rows ks mk xs [])) = Inr data"
  shows "\<exists>kept. data = map mk kept \<and> subseq kept (entries v) \<and>
       distinct (map (entry_key ks) kept) \<and>
       set (map (entry_key ks) kept) = set (map (entry_key ks) (entries v))"
proof (cases "truthy v")
  case False
  with assms show ?thesis by (simp add: entries_falsy)
next
  case True
  with assms obtain xs where xs: "py_iter v = Inr xs" "collect_rows ks mk xs [] = Inr data"
    by (auto simp: bindE_Inr_iff)
  from collect_rows_kept [OF xs(2)] obtain kept where
    k: "data = map mk kept" "subseq kept xs" "distinct (map (entry_key ks) kept)"
      "set (map (entry_key ks) kept) = set (map (entry_key ks) xs)"
      "\<forall>x \<in> set xs. is_dict x" by auto
  from py_iter_dicts [OF xs(1) k(5) True] k show ?thesis by auto
qed

lemma contacts_data_map:
  assumes "contacts_data u v = Inr data"
  shows "data = map (contact_row u) (entries v)"
proof (cases "truthy v")
  case False
  with assms show ?thesis by (simp add: contacts_data_def entries_falsy)
next
  case True
  with assms obtain xs where xs: "py_iter v = Inr xs" "contact_rows u xs = Inr data"
    by (auto simp: contacts_data_def bindE_Inr_iff)
  from contact_rows_map [OF xs(2)] py_iter_dicts [OF xs(1) _ True] show ?thesis by auto
qed

lemma rows_of_replaced:
  "\<forall>r \<in> set data. r ''nav_uuid'' = J u \<Longrightarrow> rows_of u (delete_where u old @ data) = data"
  by (induction old) (auto simp: rows_of_def delete_where_def filter_id_conv)

lemma row_nav_uuid [simp]:
  "location_row u x ''nav_uuid'' = J u" "contact_row u x ''nav_uuid'' = J u"
  "category_row u x ''nav_uuid'' = J u" "occupation_row u x ''nav_uuid'' = J u"
  by (simp_all add: location_row_def contact_row_def category_row_def occupation_row_def
        row_of_def)


lemma saved_child_rows:
  assumes "save_job w now job db = Inr db'" and "truthy (field job ''uuid'')"
  obtains ld cd gd od where
    "locations_data (field job ''uuid'') (field_default (ad_content_of job) ''workLocations'' (JArr [])) = Inr ld"
    "contacts_data (field job ''uuid'') (field_default (ad_content_of job) ''contactList'' (JArr [])) = Inr cd"
    "categories_data (field job ''uuid'') (field_default (ad_content_of job) ''categoryList'' (JArr [])) = Inr gd"
    "occupations_data (field job ''uuid'') (field_default (ad_content_of job) ''occupationCategories'' (JArr [])) = Inr od"
    "nav_job_locations db' = delete_where (field job ''uuid'') (nav_job_locations db) @ ld"
    "nav_job_contacts db' = delete_where (field job ''uuid'') (nav_job_contacts db) @ cd"
    "nav_job_categories db' = delete_where (field job ''uuid'') (nav_job_categories db) @ gd"
    "nav_job_occupations db' = delete_where (field job ''uuid'') (nav_job_occupations db) @ od"
proof -
  from assms obtain params ld cd gd od where
    "locations_data (field job ''uuid'') (field_default (ad_content_of job) ''workLocations'' (JArr [])) = Inr ld"
    "contacts_data (field job ''uuid'') (field_default (ad_content_of job) ''contactList'' (JArr [])) = Inr cd"
    "categories_data (field job ''uuid'') (field_default (ad_content_of job) ''categoryList'' (JArr [])) = Inr gd"
    "occupations_data (field job ''uuid'') (field_default (ad_content_of job) ''occupationCategories'' (JArr [])) = Inr od"
    "db' = saved (field job ''uuid'') (row_of insert_columns params) ld cd gd od db"
    by (rule save_job_Inr)
  then show thesis
    by (intro that [of ld cd gd od]) (simp_all add: saved_def)
qed



lemma job_two_contacts_saves:
  "\<exists>db'. save_job sample_world now job_two_contacts db = Inr db'"
  unfolding job_two_contacts_def
  by (simp add: save_job_eq params_defs data_defs Let_def location_key_def category_key_def
        occupation_key_def)

lemma job_two_contacts_fields:
  "truthy (field job_two_contacts ''uuid'')"
  "field job_two_contacts ''uuid'' = JStr ''u4''"
  "entries (field (ad_content_of job_two_contacts) ''workLocations'') =
     [JObj [(''city'', JStr ''Oslo''), (''postalCode'', JStr ''0150'')],
      JObj [(''city'', JStr ''Oslo''), (''postalCode'', JStr ''0150'')],
      JObj [(''city'', JStr ''Oslo''), (''postalCode'', JStr ''0151'')]]"
  "entries (field (ad_content_of job_two_contacts) ''contactList'') =
     [JObj [(''name'', JStr ''Kari'')], JObj [(''name'', JStr ''Kari'')]]"
  by (simp_all add: job_two_contacts_def field_def ad_content_of_def)



subsection \<open>Saving the same record twice\<close>

lemma upsert_again:
  assumes "new2 ''nav_uuid'' = new ''nav_uuid''"
    and "\<forall>c. c \<noteq> ''created_at'' \<longrightarrow> new2 c = new c"
  shows "upsert new2 (upsert new rs) = upsert new rs"
proof (induction rs)
  case Nil
  have "do_update new new2 = new"
    using assms(2) by (auto simp: do_update_def update_columns_def)
  with assms(1) show ?case by simp
next
  case (Cons r rs)
  have "do_update (do_update r new) new2 = do_update r new"
    using assms(2) by (auto simp: do_update_def update_columns_def)
  moreover have "do_update r new ''nav_uuid'' = r ''nav_uuid''"
    by (simp add: do_update_def update_columns_def)
  ultimately show ?case using Cons assms(1) by simp
qed

lemma map_sum_bindE: "map_sum id f (bindE m g) = bindE m (\<lambda>x. map_sum id f (g x))"
  by (cases m) simp_all

lemma nav_job_params_clock:
  "nav_job_params w now2 job =
     map_sum id (map (\<lambda>cv. if fst cv = ''created_at'' then (fst cv, T now2) else cv))
       (nav_job_params w now1 job)"
  unfolding nav_job_params_def Let_def by (simp add: map_sum_bindE)

lemma map_of_other_key:
  "c \<noteq> k \<Longrightarrow> map_of (map (\<lambda>cv. if fst cv = k then (fst cv, v) else cv) p) c = map_of p c"
  by (induction p) auto

lemma nav_job_params_now:
  assumes "nav_job_params w now1 job = Inr p"
  shows "\<exists>p2. nav_job_params w now2 job = Inr p2 \<and>
           (\<forall>c. c \<noteq> ''created_at'' \<longrightarrow> row_of insert_columns p2 c = row_of insert_columns p c)"
  unfolding nav_job_params_clock [of w now2 job now1] assms
  by (simp add: row_of_def map_of_other_key)

lemma delete_where_again:
  "\<forall>r \<in> set data. r ''nav_uuid'' = J u \<Longrightarrow>
     delete_where u (delete_where u old @ data) @ data = delete_where u old @ data"
  by (simp add: delete_where_def filter_empty_conv)

lemma data_nav_uuid:
  "locations_data u v = Inr ld \<Longrightarrow> \<forall>r \<in> set ld. r ''nav_uuid'' = J u"
  "contacts_data u v = Inr cd \<Longrightarrow> \<forall>r \<in> set cd. r ''nav_uuid'' = J u"
  "categories_data u v = Inr gd \<Longrightarrow> \<forall>r \<in> set gd. r ''nav_uuid'' = J u"
  "occupations_data u v = Inr od \<Longrightarrow> \<forall>r \<in> set od. r ''nav_uuid'' = J u"
  using deduplicated_data [of v location_key "location_row u" ld]
    deduplicated_data [of v category_key "category_row u" gd]
    deduplicated_data [of v occupation_key "occupation_row u" od]
    contacts_data_map [of u v cd]
  by (auto simp: data_defs)

lemma save_job_again:
  assumes "truthy (field job ''uuid'')" and "save_job w now1 job db = Inr db1"
  shows "save_job w now2 job db1 = Inr db1"
proof -
  let ?u = "field job ''uuid''"
  from assms(2,1) obtain p ld cd gd od where
    p: "nav_job_params w now1 job = Inr p"
    and a: "\<exists>kvs. ad_content_of job = JObj kvs"
    and l: "locations_data ?u (field_default (ad_content_of job) ''workLocations'' (JArr [])) = Inr ld"
    and c: "contacts_data ?u (field_default (ad_content_of job) ''contactList'' (JArr [])) = Inr cd"
    and g: "categories_data ?u (field_default (ad_content_of job) ''categoryList'' (JArr [])) = Inr gd"
    and oc: "occupations_data ?u (field_default (ad_content_of job) ''occupationCategories'' (JArr [])) = Inr od"
    and d: "db1 = saved ?u (row_of insert_columns p) ld cd gd od db"
    by (rule save_job_Inr)
  from nav_job_params_now [OF p, of now2] obtain p2 where
    p2: "nav_job_params w now2 job = Inr p2"
      "\<forall>c. c \<noteq> ''created_at'' \<longrightarrow> row_of insert_columns p2 c = row_of insert_columns p c"
    by blast
  from a have w: "get_default (ad_content_of job) ''workLocations'' (JArr []) =
      Inr (field_default (ad_content_of job) ''workLocations'' (JArr []))"
    by auto
  have n: "row_of insert_columns p2 ''nav_uuid'' = row_of insert_columns p ''nav_uuid''"
    using p2(2) by simp
  have "saved ?u (row_of insert_columns p2) ld cd gd od db1 = db1"
    unfolding d saved_def
    using upsert_again [OF n p2(2)] delete_where_again [OF data_nav_uuid(1) [OF l]]
      delete_where_again [OF data_nav_uuid(2) [OF c]]
      delete_where_again [OF data_nav_uuid(3) [OF g]]
      delete_where_again [OF data_nav_uuid(4) [OF oc]]
    by simp
  then show ?thesis
    unfolding save_job_eq [OF assms(1)] p2(1) w l c g oc bindE_simps by simp
qed

lemma entry_key_of_row:
  "entry_key location_key x =
     map (\<lambda>c. hkey (unJ (location_row u x c)))
       [''address'', ''city'', ''postal_code'', ''country'', ''municipal'', ''county'']"
  "entry_key category_key x =
     map (\<lambda>c. hkey (unJ (category_row u x c))) [''category_type'', ''code'', ''name'']"
  "entry_key occupation_key x =
     map (\<lambda>c. hkey (unJ (occupation_row u x c))) [''level1'', ''level2'']"
  by (simp_all add: entry_key_def location_key_def category_key_def occupation_key_def
        location_row_def category_row_def occupation_row_def row_of_def unJ_def)

lemma distinct_rows:
  assumes "distinct (map key kept)" and "\<And>x y. mk x = mk y \<Longrightarrow> key x = key y"
  shows "distinct (map mk kept)"
  using assms(1)
proof (induction kept)
  case Nil
  then show ?case by simp
next
  case (Cons x kept)
  from Cons.prems have "key x \<notin> key ` set kept" by simp
  then have "mk x \<notin> mk ` set kept" using assms(2) by (metis image_iff)
  with Cons show ?case by simp
qed

lemma deduplicated_distinct:
  assumes "save_job w now job db = Inr db'" and "truthy (field job ''uuid'')"
  shows "distinct (rows_of (field job ''uuid'') (nav_job_locations db'))"
    and "distinct (rows_of (field job ''uuid'') (nav_job_categories db'))"
    and "distinct (rows_of (field job ''uuid'') (nav_job_occupations db'))"
proof -
  let ?u = "field job ''uuid''"
  from assms obtain ld cd gd od where
    l: "locations_data ?u (field_default (ad_content_of job) ''workLocations'' (JArr [])) = Inr ld"
    and g: "categories_data ?u (field_default (ad_content_of job) ''categoryList'' (JArr [])) = Inr gd"
    and oc: "occupations_data ?u (field_default (ad_content_of job) ''occupationCategories'' (JArr [])) = Inr od"
    and tl: "nav_job_locations db' = delete_where ?u (nav_job_locations db) @ ld"
    and tg: "nav_job_categories db' = delete_where ?u (nav_job_categories db) @ gd"
    and to: "nav_job_occupations db' = delete_where ?u (nav_job_occupations db) @ od"
    by (rule saved_child_rows)
  from deduplicated_data [OF l [unfolded locations_data_def]] obtain kl where
    kl: "ld = map (location_row ?u) kl" "distinct (map (entry_key location_key) kl)" by blast
  have "distinct ld" unfolding kl(1)
    by (rule distinct_rows [OF kl(2)]) (simp add: entry_key_of_row(1) [of _ ?u])
  then show "distinct (rows_of ?u (nav_job_locations db'))"
    unfolding tl using rows_of_replaced [OF data_nav_uuid(1) [OF l]] by simp
  from deduplicated_data [OF g [unfolded categories_data_def]] obtain kg where
    kg: "gd = map (category_row ?u) kg" "distinct (map (entry_key category_key) kg)" by blast
  have "distinct gd" unfolding kg(1)
    by (rule distinct_rows [OF kg(2)]) (simp add: entry_key_of_row(2) [of _ ?u])
  then show "distinct (rows_of ?u (nav_job_categories db'))"
    unfolding tg using rows_of_replaced [OF data_nav_uuid(3) [OF g]] by simp
  from deduplicated_data [OF oc [unfolded occupations_data_def]] obtain ko where
    ko: "od = map (occupation_row ?u) ko" "distinct (map (entry_key occupation_key) ko)" by blast
  have "distinct od" unfolding ko(1)
    by (rule distinct_rows [OF ko(2)]) (simp add: entry_key_of_row(3) [of _ ?u])
  then show "distinct (rows_of ?u (nav_job_occupations db'))"
    unfolding to using rows_of_replaced [OF data_nav_uuid(4) [OF oc]] by simp
qed


lemma contacts_stored:
  assumes "save_job w now job db = Inr db'" and "truthy (field job ''uuid'')"
  shows "rows_of (field job ''uuid'') (nav_job_contacts db') =
       map (contact_row (field job ''uuid''))
         (entries (field (ad_content_of job) ''contactList''))"
proof -
  from assms obtain ld cd gd od where
    c: "contacts_data (field job ''uuid'') (field_default (ad_content_of job) ''contactList'' (JArr [])) = Inr cd"
    and tc: "nav_job_contacts db' = delete_where (field job ''uuid'') (nav_job_contacts db) @ cd"
    by (rule saved_child_rows)
  have "cd = map (contact_row (field job ''uuid''))
               (entries (field (ad_content_of job) ''contactList''))"
    using contacts_data_map [OF c] by (simp add: entries_field_default)
  then show ?thesis
    unfolding tc using rows_of_replaced [OF data_nav_uuid(2) [OF c]] by simp
qed

lemma save_job_outcome:
  assumes "truthy (field job ''uuid'')" and "save_job w now2 job db2 = Inr x"
  shows "\<exists>y. save_job w now1 job db = Inr y"
proof -
  let ?u = "field job ''uuid''"
  from assms(2,1) obtain p ld cd gd od where
    p: "nav_job_params w now2 job = Inr p"
    and a: "\<exists>kvs. ad_content_of job = JObj kvs"
    and l: "locations_data ?u (field_default (ad_content_of job) ''workLocations'' (JArr [])) = Inr ld"
    and c: "contacts_data ?u (field_default (ad_content_of job) ''contactList'' (JArr [])) = Inr cd"
    and g: "categories_data ?u (field_default (ad_content_of job) ''categoryList'' (JArr [])) = Inr gd"
    and oc: "occupations_data ?u (field_default (ad_content_of job) ''occupationCategories'' (JArr [])) = Inr od"
    by (rule save_job_Inr)
  from nav_job_params_now [OF p, of now1] obtain p1 where
    p1: "nav_job_params w now1 job = Inr p1" by blast
  from a have w: "get_default (ad_content_of job) ''workLocations'' (JArr []) =
      Inr (field_default (ad_content_of job) ''workLocations'' (JArr []))"
    by auto
  show ?thesis
    unfolding save_job_eq [OF assms(1)] p1 w l c g oc bindE_simps by simp
qed

lemma save_twice_eq:
  assumes "truthy (field job ''uuid'')"
  shows "save_twice w now1 now2 job db = db_after (save_job w now1 job db) db"
proof (cases "save_job w now1 job db")
  case (Inl e)
  have "\<exists>e'. save_job w now2 job db = Inl e'"
  proof (cases "save_job w now2 job db")
    case (Inr x)
    from save_job_outcome [OF assms Inr, of now1 db] Inl show ?thesis by simp
  qed simp
  with Inl show ?thesis by (auto simp: save_twice_def db_after_def)
next
  case (Inr db1)
  from save_job_again [OF assms Inr, of now2] Inr show ?thesis
    by (simp add: save_twice_def db_after_def)
qed

text \<open>
  C2, as the code has it. For a record with an identity, the database after two calls of
  \<^verbatim>\<open>save_job\<close> with the same payload is the database after the first (also when the
  calls raise and roll back). When the first call returns, the second returns the very same
  database: the parent row keeps every column, \<open>created_at\<close> included although the clock
  has moved, and each child table holds the same rows. Among them the rows of the record in
  nav\_job\_locations, nav\_job\_categories and nav\_job\_occupations are pairwise different;
  nav\_job\_contacts holds one row for each entry of contactList, so an entry the record
  repeats is stored as often as it occurs, after the second call as after the first.
\<close>

theorem save_job_idempotent:
  assumes "truthy (field job ''uuid'')"
  shows "save_twice w now1 now2 job db = db_after (save_job w now1 job db) db \<and>
    (save_job w now1 job db = Inr db1 \<longrightarrow>
       save_job w now2 job db1 = Inr db1 \<and>
       distinct (rows_of (field job ''uuid'') (nav_job_locations db1)) \<and>
       distinct (rows_of (field job ''uuid'') (nav_job_categories db1)) \<and>
       distinct (rows_of (field job ''uuid'') (nav_job_occupations db1)) \<and>
       rows_of (field job ''uuid'') (nav_job_contacts db1) =
         map (contact_row (field job ''uuid''))
           (entries (field (ad_content_of job) ''contactList'')))"
proof (intro conjI impI)
  show "save_twice w now1 now2 job db = db_after (save_job w now1 job db) db"
    using assms by (rule save_twice_eq)
next
  assume s: "save_job w now1 job db = Inr db1"
  show "save_job w now2 job db1 = Inr db1"
    using assms s by (rule save_job_again)
  show "distinct (rows_of (field job ''uuid'') (nav_job_locations db1))"
    using s assms by (rule deduplicated_distinct(1))
  show "distinct (rows_of (field job ''uuid'') (nav_job_categories db1))"
    using s assms by (rule deduplicated_distinct(2))
  show "distinct (rows_of (field job ''uuid'') (nav_job_occupations db1))"
    using s assms by (rule deduplicated_distinct(3))
  show "rows_of (field job ''uuid'') (nav_job_contacts db1) =
         map (contact_row (field job ''uuid''))
           (entries (field (ad_content_of job) ''contactList''))"
    using s assms by (rule contacts_stored)
qed

text \<open>
  C2 as stated fails for contacts: a record that lists the same contact twice has two equal
  rows in nav\_job\_contacts after the two calls.
\<close>

theorem repeated_contact_counterexample:
  "truthy (field job_two_contacts ''uuid'') \<and>
   \<not> distinct (rows_of (JStr ''u4'') (nav_job_contacts
        (save_twice sample_world (clock sample_world 0) (clock sample_world 1)
           job_two_contacts empty_db)))"
proof -
  let ?r = "save_job sample_world (clock sample_world 0) job_two_contacts empty_db"
  obtain db' where "?r = Inr db'" using job_two_contacts_saves by blast
  then have s: "?r = Inr (db_after ?r empty_db)" by (rule save_job_returns)
  note f = job_two_contacts_fields
  have "rows_of (JStr ''u4'') (nav_job_contacts (db_after ?r empty_db)) =
     [contact_row (JStr ''u4'') (JObj [(''name'', JStr ''Kari'')]),
      contact_row (JStr ''u4'') (JObj [(''name'', JStr ''Kari'')])]"
    using contacts_stored [OF s f(1), unfolded f] by simp
  then show ?thesis
    using f(1) by (simp add: save_twice_eq [OF f(1)])
qed

theorem save_job_idempotent_witness:
  "truthy (field job_two_contacts ''uuid'') \<and>
   save_job sample_world (clock sample_world 0) job_two_contacts empty_db =
     Inr (db_after (save_job sample_world (clock sample_world 0) job_two_contacts empty_db) empty_db) \<and>
   save_job sample_world (clock sample_world 1) job_two_contacts
     (db_after (save_job sample_world (clock sample_world 0) job_two_contacts empty_db) empty_db) =
     Inr (db_after (save_job sample_world (clock sample_world 0) job_two_contacts empty_db) empty_db) \<and>
   distinct (rows_of (JStr ''u4'') (nav_job_locations
     (db_after (save_job sample_world (clock sample_world 0) job_two_contacts empty_db) empty_db)))"
proof -
  let ?r = "save_job sample_world (clock sample_world 0) job_two_contacts empty_db"
  obtain db' where "?r = Inr db'" using job_two_contacts_saves by blast
  then have s: "?r = Inr (db_after ?r empty_db)" by (rule save_job_returns)
  note f = job_two_contacts_fields
  note t = save_job_idempotent [OF f(1), of sample_world "clock sample_world 0"
      "clock sample_world 1" empty_db "db_after ?r empty_db", THEN conjunct2, rule_format, OF s]
  from t f(1,2) s show ?thesis by simp
qed

section \<open>Properties of nav\_client.py and main.py\<close>

subsection \<open>The feed walker\<close>

lemma next_page_cases:
  "next_page w p = Inr None \<longleftrightarrow> is_dict p \<and> \<not> truthy (field p ''next_id'')"
  "next_page w p = Inr (Some q) \<longleftrightarrow> is_dict p \<and> linked w p q"
  "next_page w p = Inl e \<longleftrightarrow>
     (\<not> is_dict p \<and> e = AttributeError) \<or>
     (is_dict p \<and> truthy (field p ''next_id'') \<and>
      get_feed_page w (field p ''next_id'') False = Inl e)"
  by (cases p; auto simp: next_page_def get_def field_def linked_def split: sum.splits)+

lemma follow_props:
  "follow w n page = (ps, e) \<Longrightarrow>
     ps \<noteq> [] \<and> hd ps = page \<and> successively (linked w) ps \<and> length ps \<le> Suc n \<and>
     (e = Exhausted \<longrightarrow> is_dict (last ps) \<and> \<not> truthy (field (last ps) ''next_id'')) \<and>
     (e = Suspended \<longrightarrow> length ps = Suc n) \<and>
     (\<forall>err. e = Raised err \<longrightarrow> next_page w (last ps) = Inl err)"
proof (induction n arbitrary: page ps e)
  case 0
  then show ?case by auto
next
  case (Suc n)
  show ?case
  proof (cases "next_page w page")
    case (Inl err)
    with Suc.prems show ?thesis by auto
  next
    case (Inr r)
    show ?thesis
    proof (cases r)
      case None
      with Inr Suc.prems next_page_cases(1) [of w page] show ?thesis by auto
    next
      case (Some q)
      obtain qs e' where f: "follow w n q = (qs, e')" by (cases "follow w n q")
      with Inr Some Suc.prems have ps: "ps = page # qs" "e = e'" by auto
      from Suc.IH [OF f] have ih: "qs \<noteq> []" "hd qs = q" "successively (linked w) qs"
        "length qs \<le> Suc n"
        "e' = Exhausted \<longrightarrow> is_dict (last qs) \<and> \<not> truthy (field (last qs) ''next_id'')"
        "e' = Suspended \<longrightarrow> length qs = Suc n"
        "\<forall>err. e' = Raised err \<longrightarrow> next_page w (last qs) = Inl err"
        by auto
      from Inr Some have l: "linked w page q" by (simp add: next_page_cases(2))
      from ih(1,2) l ih(3) have "successively (linked w) (page # qs)"
        by (cases qs) auto
      with ps ih show ?thesis by auto
    qed
  qed
qed

text \<open>
  C5. For a start locator \<open>L\<close> (any truthy id), the pages \<^verbatim>\<open>fetch_feed_pages\<close> yields begin
  with the page fetched at \<open>L\<close>, if that fetch returns, and nothing is yielded if it
  raises. Each later page is the one fetched at the \<open>next_id\<close> of the page before it, which
  is truthy. The generator returns only after a page without \<open>next_id\<close>, so a page that has
  one is followed by its successor unless that fetch raises or the consumer stops asking.
\<close>

theorem walker_sequence:
  assumes "truthy L" and "fetch_feed_pages w L last_flag n = (ps, e)"
  shows "(ps = [] \<longrightarrow> (\<exists>err. get_feed_page w L False = Inl err \<and> e = Raised err)) \<and>
         (ps \<noteq> [] \<longrightarrow> get_feed_page w L False = Inr (hd ps)) \<and>
         successively (linked w) ps \<and>
         (e = Exhausted \<longrightarrow> ps \<noteq> [] \<and> \<not> truthy (field (last ps) ''next_id'')) \<and>
         (\<forall>err. e = Raised err \<and> ps \<noteq> [] \<longrightarrow> next_page w (last ps) = Inl err) \<and>
         (e = Suspended \<longrightarrow> length ps = Suc n)"
proof (cases "get_feed_page w L False")
  case (Inl err)
  with assms show ?thesis by (auto simp: fetch_feed_pages_def first_page_def)
next
  case (Inr page)
  with assms have "follow w n page = (ps, e)"
    by (simp add: fetch_feed_pages_def first_page_def)
  from follow_props [OF this] Inr show ?thesis by auto
qed


lemma sample_http_simps [simp]: "http sample_world = sample_http"
  by (simp add: sample_world_def)

lemma sample_pages:
  "get_feed_page sample_world (JStr ''p0'') False = Inr page_p0"
  "get_feed_page sample_world (JStr ''p1'') False = Inr page_p1"
  "get_feed_page sample_world (JStr ''p2'') False = Inr page_p2"
  by (simp_all add: get_feed_page_def sample_http_def sample_feed_def)

lemma sample_next_page:
  "next_page sample_world page_p0 = Inr None"
  "next_page sample_world page_p1 = Inr (Some page_p2)"
  "next_page sample_world page_p2 = Inr None"
    apply (simp add: next_page_def get_def page_p0_def)
   apply (simp add: next_page_def get_def sample_pages)
   apply (simp add: page_p1_def sample_pages)
  apply (simp add: next_page_def get_def page_p2_def)
  done

theorem walker_sequence_witness:
  "truthy (JStr ''p1'') \<and>
   fetch_feed_pages sample_world (JStr ''p1'') False 5 = ([page_p1, page_p2], Exhausted) \<and>
   get_feed_page sample_world (JStr ''p1'') False = Inr page_p1 \<and>
   linked sample_world page_p1 page_p2 \<and>
   \<not> truthy (field page_p2 ''next_id'') \<and>
   fetch_feed_pages sample_world (JStr ''p1'') False 0 = ([page_p1], Suspended) \<and>
   length [page_p1] = Suc 0 \<and>
   truthy (JStr ''p9'') \<and>
   fetch_feed_pages sample_world (JStr ''p9'') False 5 = ([], Raised RequestException) \<and>
   get_feed_page sample_world (JStr ''p9'') False = Inl RequestException"
proof -
  have t: "truthy (JStr ''p1'')" and t': "truthy (JStr ''p9'')" by simp_all
  have "follow sample_world 5 page_p1 = ([page_p1, page_p2], Exhausted)"
    by (simp add: numeral_eq_Suc sample_next_page)
  then have f: "fetch_feed_pages sample_world (JStr ''p1'') False 5 = ([page_p1, page_p2], Exhausted)"
    by (simp add: fetch_feed_pages_def first_page_def sample_pages)
  have g: "fetch_feed_pages sample_world (JStr ''p1'') False 0 = ([page_p1], Suspended)"
    by (simp add: fetch_feed_pages_def first_page_def sample_pages)
  have h: "fetch_feed_pages sample_world (JStr ''p9'') False 5 = ([], Raised RequestException)"
    by (simp add: fetch_feed_pages_def first_page_def get_feed_page_def sample_http_def
          sample_feed_def)
  from walker_sequence [OF t f]
  have 1: "get_feed_page sample_world (JStr ''p1'') False = Inr page_p1"
    "linked sample_world page_p1 page_p2" "\<not> truthy (field page_p2 ''next_id'')"
    by simp_all
  from walker_sequence [OF t g] have 2: "length [page_p1] = Suc 0" by simp
  from walker_sequence [OF t' h]
  have 3: "get_feed_page sample_world (JStr ''p9'') False = Inl RequestException" by simp
  from t f 1 g 2 t' h 3 show ?thesis by blast
qed

subsection \<open>The date filters\<close>









subsection \<open>Failures and skips in the loop over a page\<close>

lemma process_item_raise:
  assumes "examine w cfg item = Inl e \<or>
           (\<exists>details. examine w cfg item = Inr (Save details) \<and>
              save_job w (clock w (storage_calls st)) details (store st) = Inl e)"
  shows "snd (process_item w cfg item st) = False"
    and "logged (fst (process_item w cfg item st)) =
           logged st @ [ErrorProcessingItem (field item ''id'') e]"
    and "store (fst (process_item w cfg item st)) = store st"
  using assms by (auto simp: process_item_def info_def)

lemma process_item_skip:
  assumes "examine w cfg item = Inr Skip"
  shows "snd (process_item w cfg item st) = False"
    and "logged (fst (process_item w cfg item st)) = logged st"
    and "skipped_count (fst (process_item w cfg item st)) = skipped_count st + 1"
    and "store (fst (process_item w cfg item st)) = store st"
  using assms by (auto simp: process_item_def info_def)

lemma process_items_step:
  "snd (process_item w cfg item st) = False \<Longrightarrow>
     process_items w cfg (item # items) st =
     process_items w cfg items (fst (process_item w cfg item st))"
  by (cases "process_item w cfg item st") auto


lemma chain_raises:
  "bindE a (\<lambda>wl. bindE (b wl) (\<lambda>ld. bindE c (\<lambda>cd. bindE g (\<lambda>gd. bindE oc (\<lambda>od.
     Inr (F wl ld cd gd od)))))) = Inl e \<Longrightarrow>
   bindE a (\<lambda>wl. bindE (b wl) (\<lambda>ld. bindE c (\<lambda>cd. bindE g (\<lambda>gd. bindE oc (\<lambda>od.
     Inr (G wl ld cd gd od)))))) = Inl e"
  by (auto simp: bindE_def split: sum.splits)

lemma save_job_raises:
  assumes "save_job w now d db = Inl e"
  shows "save_job w now' d db' = Inl e"
proof (cases "truthy (field d ''uuid'')")
  case True
  show ?thesis
  proof (cases "nav_job_params w now d")
    case (Inl e')
    with assms True have "e' = e" by (simp add: save_job_eq)
    with Inl have "nav_job_params w now' d = Inl e"
      using nav_job_params_clock [of w now' d now] by simp
    with True show ?thesis by (simp add: save_job_eq)
  next
    case (Inr p)
    then obtain p' where p': "nav_job_params w now' d = Inr p'"
      using nav_job_params_now [OF Inr, of now'] by blast
    from assms show ?thesis
      unfolding save_job_eq [OF True] Inr p' bindE_simps by (rule chain_raises)
  qed
next
  case False
  with assms show ?thesis
    by (cases d) (auto simp: save_job_def get_def field_def)
qed

lemma save_job_fate:
  "(\<exists>x. save_job w now d db = Inr x) \<longleftrightarrow> (\<exists>y. save_job w now' d db' = Inr y)"
  by (metis save_job_raises sum.exhaust sum.distinct(1))

lemma item_errors_append [simp]:
  "item_errors (xs @ ys) = item_errors xs @ item_errors ys"
  by (induction xs rule: item_errors.induct) simp_all

lemma process_item_fate:
  "process_item w cfg item st = (st', brk) \<Longrightarrow>
     (case fate_of w cfg item of
        Raises e \<Rightarrow>
          \<not> brk \<and> item_errors (logged st') = item_errors (logged st) @ [(field item ''id'', e)] \<and>
          skipped_count st' = skipped_count st \<and> fetched_count st' = fetched_count st \<and>
          store st' = store st
      | Skipped \<Rightarrow>
          \<not> brk \<and> logged st' = logged st \<and>
          skipped_count st' = Suc (skipped_count st) \<and> fetched_count st' = fetched_count st \<and>
          store st' = store st
      | Saved \<Rightarrow>
          brk = limit_reached cfg (fetched_count st') \<and>
          item_errors (logged st') = item_errors (logged st) \<and>
          skipped_count st' = skipped_count st \<and> fetched_count st' = Suc (fetched_count st))"
proof -
  assume p: "process_item w cfg item st = (st', brk)"
  show ?thesis
  proof (cases "examine w cfg item")
  case (Inl e)
  with p show ?thesis
    by (auto simp: process_item_def fate_of_def info_def)
next
  case (Inr v)
  show ?thesis
  proof (cases v)
    case Skip
    with Inr p show ?thesis
      by (auto simp: process_item_def fate_of_def info_def)
  next
    case (Save details)
    let ?e = "\<lparr>nav_jobs = [], nav_job_locations = [], nav_job_contacts = [],
                   nav_job_categories = [], nav_job_occupations = [], nav_feed_state = []\<rparr>"
    show ?thesis
    proof (cases "save_job w (clock w (storage_calls st)) details (store st)")
      case (Inl e)
      then have "save_job w (clock w 0) details ?e = Inl e" by (rule save_job_raises)
      with Inl Inr Save p show ?thesis
        by (auto simp: process_item_def fate_of_def info_def)
    next
      case r: (Inr db')
      then obtain y where "save_job w (clock w 0) details ?e = Inr y"
        using save_job_fate by blast
      with r Inr Save p show ?thesis
        by (auto simp: process_item_def fate_of_def info_def Let_def split: if_splits)
    qed
  qed
qed
qed


lemma failures_simps [simp]:
  "failures w cfg [] = []"
  "failures w cfg (i # its) =
     (case fate_of w cfg i of Raises e \<Rightarrow> [(field i ''id'', e)] | _ \<Rightarrow> []) @ failures w cfg its"
  by (simp_all add: failures_def)

lemma process_items_accounting:
  "\<exists>n \<le> length items.
     (n = length items \<or> limit_reached cfg (fetched_count (process_items w cfg items st))) \<and>
     item_errors (logged (process_items w cfg items st)) =
       item_errors (logged st) @ failures w cfg (take n items) \<and>
     skipped_count (process_items w cfg items st) =
       skipped_count st + length (filter (\<lambda>i. fate_of w cfg i = Skipped) (take n items)) \<and>
     fetched_count (process_items w cfg items st) =
       fetched_count st + length (filter (\<lambda>i. fate_of w cfg i = Saved) (take n items))"
proof (induction items arbitrary: st)
  case Nil
  then show ?case by simp
next
  case (Cons item items)
  obtain st1 brk where p: "process_item w cfg item st = (st1, brk)"
    by (cases "process_item w cfg item st")
  note f = process_item_fate [OF p]
  show ?case
  proof (cases brk)
    case True
    with p have r: "process_items w cfg (item # items) st = st1" by simp
    from f True have s: "fate_of w cfg item = Saved"
      by (cases "fate_of w cfg item") auto
    with f True show ?thesis
      unfolding r by (intro exI [of _ 1]) auto
  next
    case False
    with p have r: "process_items w cfg (item # items) st = process_items w cfg items st1"
      by simp
    from Cons.IH [of st1] obtain n where n: "n \<le> length items"
      "n = length items \<or> limit_reached cfg (fetched_count (process_items w cfg items st1))"
      "item_errors (logged (process_items w cfg items st1)) =
         item_errors (logged st1) @ failures w cfg (take n items)"
      "skipped_count (process_items w cfg items st1) =
         skipped_count st1 + length (filter (\<lambda>i. fate_of w cfg i = Skipped) (take n items))"
      "fetched_count (process_items w cfg items st1) =
         fetched_count st1 + length (filter (\<lambda>i. fate_of w cfg i = Saved) (take n items))"
      by blast
    from f n show ?thesis
      unfolding r by (intro exI [of _ "Suc n"]) (cases "fate_of w cfg item"; auto)
  qed
qed


text \<open>
  C4, as the code has it. The loop over the records of a page handles the records in the
  order they complete, all of them unless the limit of saved records is reached. A record
  whose fetch, filters or \<^verbatim>\<open>save_job\<close> raise adds one line to the log, with the id of the
  item and the exception, and the loop goes on with the next record. The skipped count
  grows by one for each record the filters drop (no detail, inactive, no content, older
  than the threshold), and the saved count by one for each record \<^verbatim>\<open>save_job\<close> returned for;
  for a dropped record nothing is logged.
\<close>

theorem failures_logged_skips_counted:
  "\<exists>n \<le> length items.
     (n = length items \<or> limit_reached cfg (fetched_count (process_items w cfg items st))) \<and>
     item_errors (logged (process_items w cfg items st)) =
       item_errors (logged st) @ failures w cfg (take n items) \<and>
     skipped_count (process_items w cfg items st) =
       skipped_count st + length (filter (\<lambda>i. fate_of w cfg i = Skipped) (take n items)) \<and>
     fetched_count (process_items w cfg items st) =
       fetched_count st + length (filter (\<lambda>i. fate_of w cfg i = Saved) (take n items))"
  by (rule process_items_accounting)

theorem failures_logged_skips_counted_witness:
  "item_errors (logged (process_items sample_world run_from_p1 [item_e2, item_e3, item_e4]
       (initial_state empty_db))) = [(JStr ''e3'', RequestException)] \<and>
   skipped_count (process_items sample_world run_from_p1 [item_e2, item_e3, item_e4]
       (initial_state empty_db)) = 1 \<and>
   fetched_count (process_items sample_world run_from_p1 [item_e2, item_e3, item_e4]
       (initial_state empty_db)) = 1"
proof -
  let ?its = "[item_e2, item_e3, item_e4]"
  let ?st' = "process_items sample_world run_from_p1 ?its (initial_state empty_db)"
  from failures_logged_skips_counted [of ?its run_from_p1 sample_world "initial_state empty_db"]
  obtain n where n: "n \<le> length ?its"
    "n = length ?its \<or> limit_reached run_from_p1 (fetched_count ?st')"
    "item_errors (logged ?st') =
       item_errors (logged (initial_state empty_db)) @ failures sample_world run_from_p1 (take n ?its)"
    "skipped_count ?st' = skipped_count (initial_state empty_db) +
       length (filter (\<lambda>i. fate_of sample_world run_from_p1 i = Skipped) (take n ?its))"
    "fetched_count ?st' = fetched_count (initial_state empty_db) +
       length (filter (\<lambda>i. fate_of sample_world run_from_p1 i = Saved) (take n ?its))"
    by blast
  have "\<not> limit_reached run_from_p1 (fetched_count ?st')"
    by (simp add: limit_reached_def run_from_p1_def)
  with n(2) have t: "take n ?its = ?its" by simp
  have f: "fate_of sample_world run_from_p1 item_e2 = Skipped"
    "fate_of sample_world run_from_p1 item_e3 = Raises RequestException"
    "fate_of sample_world run_from_p1 item_e4 = Saved"
    by code_simp+
  have i: "field item_e3 ''id'' = JStr ''e3''" by code_simp
  from n(3-5) show ?thesis
    unfolding t by (simp add: f i initial_state_def)
qed

text \<open>
  C4 as stated fails. On page p3 the record e2 is inactive and the fetch of e3 raises. The
  run reports one skipped record: the failure of e3 is logged and not counted, and the skip
  of e2 is counted and no line of the log names it.
\<close>

theorem failure_not_counted_counterexample:
  "fate_of sample_world run_from_p3 item_e2 = Skipped \<and>
   fate_of sample_world run_from_p3 item_e3 = Raises RequestException \<and>
   logged (snd (run sample_world run_from_p3 3 empty_db)) =
     [ManualStartPage ''p3'', ProcessingPage 2, FetchingDetails 2,
      ErrorProcessingItem (JStr ''e3'') RequestException,
      EndOfFeed (JStr ''p3''), StateUpdated (JStr ''/api/v1/feed/p3''), SyncComplete 0 1]"
proof -
  have "fate_of sample_world run_from_p3 item_e2 = Skipped"
    by code_simp
  moreover have "fate_of sample_world run_from_p3 item_e3 = Raises RequestException"
    by code_simp
  moreover have "logged (snd (run sample_world run_from_p3 3 empty_db)) =
     [ManualStartPage ''p3'', ProcessingPage 2, FetchingDetails 2,
      ErrorProcessingItem (JStr ''e3'') RequestException,
      EndOfFeed (JStr ''p3''), StateUpdated (JStr ''/api/v1/feed/p3''), SyncComplete 0 1]"
    by code_simp
  ultimately show ?thesis by blast
qed

subsection \<open>The limit\<close>

lemma info_simps [simp]:
  "store (info x st) = store st" "fetched_count (info x st) = fetched_count st"
  "skipped_count (info x st) = skipped_count st" "storage_calls (info x st) = storage_calls st"
  "logged (info x st) = logged st @ [x]"
  by (simp_all add: info_def)

lemma write_cursor_simps [simp]:
  "fetched_count (write_cursor w u md st) = fetched_count st"
  "skipped_count (write_cursor w u md st) = skipped_count st"
  "logged (write_cursor w u md st) = logged st"
  by (simp_all add: write_cursor_def)





















end
